theory Spec2Isabelle
  imports Main
begin

section \<open>The platform: POSIX path functions of Node's \<open>path\<close> module\<close>

text \<open>
  \<open>lib/view.js\<close> imports \<open>dirname\<close>, \<open>basename\<close>, \<open>extname\<close>, \<open>join\<close> and
  \<open>resolve\<close> from Node's \<open>path\<close> module. They are platform code, not code of this
  repository; the definitions below follow the POSIX implementation of Node's
  \<open>lib/path.js\<close> loop by loop. Strings are \<open>char list\<close>s; index variables that use
  the sentinel \<open>-1\<close> are \<open>int\<close>s.
\<close>

definition js_slice :: "string \<Rightarrow> int \<Rightarrow> int \<Rightarrow> string" where
  \<comment> \<open>\<open>String.prototype.slice(a, b)\<close>: a negative index counts from the end.\<close>
  "js_slice s a b =
     (let n = int (length s);
          a' = (if a < 0 then max 0 (n + a) else min a n);
          b' = (if b < 0 then max 0 (n + b) else min b n)
      in take (nat (b' - a')) (drop (nat a') s))"

fun lastIndexOf_from :: "string \<Rightarrow> char \<Rightarrow> nat \<Rightarrow> int" where
  "lastIndexOf_from s c 0 = -1"
| "lastIndexOf_from s c (Suc i) = (if s ! i = c then int i else lastIndexOf_from s c i)"

definition lastIndexOf :: "string \<Rightarrow> char \<Rightarrow> int" where
  \<comment> \<open>\<open>String.prototype.lastIndexOf\<close> of a one-character string; \<open>-1\<close> when absent.\<close>
  "lastIndexOf s c = lastIndexOf_from s c (length s)"

record normalize_state =
  res :: string
  lastSegmentLength :: int
  lastSlash :: int
  dots :: int

definition normalizeString_step ::
  "string \<Rightarrow> bool \<Rightarrow> nat \<Rightarrow> char \<Rightarrow> normalize_state \<Rightarrow> normalize_state" where
  \<comment> \<open>One iteration of the loop of \<open>normalizeString\<close>, at index \<open>i\<close> with character \<open>code\<close>.\<close>
  "normalizeString_step path allowAboveRoot i code st =
     (if code = CHR ''/'' then
        (if lastSlash st = int i - 1 \<or> dots st = 1 then
           st\<lparr>lastSlash := int i, dots := 0\<rparr>
         else if dots st = 2 then
           (if (length (res st) < 2 \<or> lastSegmentLength st \<noteq> 2 \<or>
                drop (length (res st) - 2) (res st) \<noteq> ''..'') \<and> length (res st) > 2 then
              (let lastSlashIndex = lastIndexOf (res st) (CHR ''/'') in
               if lastSlashIndex = -1 then
                 st\<lparr>res := [], lastSegmentLength := 0, lastSlash := int i, dots := 0\<rparr>
               else
                 (let r = js_slice (res st) 0 lastSlashIndex in
                  st\<lparr>res := r,
                     lastSegmentLength := int (length r) - 1 - lastIndexOf r (CHR ''/''),
                     lastSlash := int i, dots := 0\<rparr>))
            else if (length (res st) < 2 \<or> lastSegmentLength st \<noteq> 2 \<or>
                drop (length (res st) - 2) (res st) \<noteq> ''..'') \<and> length (res st) \<noteq> 0 then
              st\<lparr>res := [], lastSegmentLength := 0, lastSlash := int i, dots := 0\<rparr>
            else if allowAboveRoot then
              st\<lparr>res := (if length (res st) > 0 then res st @ ''/..'' else ''..''),
                 lastSegmentLength := 2, lastSlash := int i, dots := 0\<rparr>
            else
              st\<lparr>lastSlash := int i, dots := 0\<rparr>)
         else
           st\<lparr>res := (if length (res st) > 0
                       then res st @ ''/'' @ js_slice path (lastSlash st + 1) (int i)
                       else js_slice path (lastSlash st + 1) (int i)),
              lastSegmentLength := int i - lastSlash st - 1,
              lastSlash := int i, dots := 0\<rparr>)
      else if code = CHR ''.'' \<and> dots st \<noteq> -1 then
        st\<lparr>dots := dots st + 1\<rparr>
      else
        st\<lparr>dots := -1\<rparr>)"

definition normalizeString :: "string \<Rightarrow> bool \<Rightarrow> string" where
  \<comment> \<open>The loop runs over \<open>i = 0 .. length path\<close>; at \<open>i = length path\<close> it stops when the
      last character read was a separator and otherwise runs once more with \<open>/\<close>.\<close>
  "normalizeString path allowAboveRoot =
     (let st0 = \<lparr>res = [], lastSegmentLength = 0, lastSlash = -1, dots = 0\<rparr>;
          st = foldl (\<lambda>st i. normalizeString_step path allowAboveRoot i (path ! i) st)
                 st0 [0 ..< length path]
      in if path \<noteq> [] \<and> last path = CHR ''/'' then res st
         else res (normalizeString_step path allowAboveRoot (length path) (CHR ''/'') st))"

definition normalize :: "string \<Rightarrow> string" where
  "normalize path =
     (if length path = 0 then ''.''
      else
        (let isAbsolute = (hd path = CHR ''/'');
             trailingSeparator = (last path = CHR ''/'');
             p = normalizeString path (\<not> isAbsolute)
         in if length p = 0 then
              (if isAbsolute then ''/'' else if trailingSeparator then ''./'' else ''.'')
            else
              (let p' = (if trailingSeparator then p @ ''/'' else p)
               in if isAbsolute then ''/'' @ p' else p')))"

fun join_loop :: "string list \<Rightarrow> string option \<Rightarrow> string option" where
  "join_loop [] joined = joined"
| "join_loop (arg # args) joined =
     (if length arg > 0 then
        (case joined of
           None \<Rightarrow> join_loop args (Some arg)
         | Some j \<Rightarrow> join_loop args (Some (j @ ''/'' @ arg)))
      else join_loop args joined)"

definition join :: "string list \<Rightarrow> string" where
  "join args =
     (if length args = 0 then ''.''
      else (case join_loop args None of None \<Rightarrow> ''.'' | Some joined \<Rightarrow> normalize joined))"

datatype error =
    Error string      \<comment> \<open>\<open>new Error(message)\<close>\<close>
  | TypeError string  \<comment> \<open>a \<open>TypeError\<close> raised by the runtime or by \<open>validateString\<close>\<close>

fun resolve_loop :: "string \<Rightarrow> string option list \<Rightarrow> string \<Rightarrow> error + (string \<times> bool)" where
  \<comment> \<open>The loop of \<open>resolve\<close> runs from the last argument down to index \<open>-1\<close> (the current
      working directory) and stops as soon as the path built so far is absolute. The
      argument list is passed reversed; \<open>None\<close> is an argument that is not a string, which
      \<open>validateString\<close> rejects when the loop reaches it.\<close>
  "resolve_loop cwd [] resolvedPath =
     (if length cwd = 0 then Inr (resolvedPath, False)
      else Inr (cwd @ ''/'' @ resolvedPath, hd cwd = CHR ''/''))"
| "resolve_loop cwd (None # args) resolvedPath =
     Inl (TypeError ''The paths[i] argument must be of type string'')"
| "resolve_loop cwd (Some path # args) resolvedPath =
     (if length path = 0 then resolve_loop cwd args resolvedPath
      else if hd path = CHR ''/'' then Inr (path @ ''/'' @ resolvedPath, True)
      else resolve_loop cwd args (path @ ''/'' @ resolvedPath))"

definition resolve :: "string \<Rightarrow> string option list \<Rightarrow> error + string" where
  "resolve cwd args =
     (case resolve_loop cwd (rev args) [] of
        Inl e \<Rightarrow> Inl e
      | Inr (resolvedPath, resolvedAbsolute) \<Rightarrow>
          (let p = normalizeString resolvedPath (\<not> resolvedAbsolute)
           in if resolvedAbsolute then Inr (''/'' @ p)
              else Inr (if length p > 0 then p else ''.'')))"

record dirname_state =
  dn_end :: int
  dn_matchedSlash :: bool

fun dirname_loop :: "string \<Rightarrow> nat \<Rightarrow> dirname_state \<Rightarrow> dirname_state" where
  \<comment> \<open>\<open>for (i = path.length - 1; i >= 1; --i)\<close>; the second argument is \<open>i\<close>.\<close>
  "dirname_loop path 0 st = st"
| "dirname_loop path (Suc j) st =
     (if path ! Suc j = CHR ''/'' then
        (if \<not> dn_matchedSlash st then st\<lparr>dn_end := int (Suc j)\<rparr>
         else dirname_loop path j st)
      else dirname_loop path j (st\<lparr>dn_matchedSlash := False\<rparr>))"

definition dirname :: "string \<Rightarrow> string" where
  "dirname path =
     (if length path = 0 then ''.''
      else
        (let hasRoot = (hd path = CHR ''/'');
             st = dirname_loop path (length path - 1) \<lparr>dn_end = -1, dn_matchedSlash = True\<rparr>
         in if dn_end st = -1 then (if hasRoot then ''/'' else ''.'')
            else if hasRoot \<and> dn_end st = 1 then ''//''
            else js_slice path 0 (dn_end st)))"

record basename_state =
  bn_start :: int
  bn_end :: int
  bn_matchedSlash :: bool
  bn_extIdx :: int
  bn_firstNonSlashEnd :: int

fun basename_loop :: "string \<Rightarrow> nat \<Rightarrow> basename_state \<Rightarrow> basename_state" where
  \<comment> \<open>The loop of \<open>basename(path)\<close> without a suffix; \<open>Suc i\<close> stands for index \<open>i\<close>.\<close>
  "basename_loop path 0 st = st"
| "basename_loop path (Suc i) st =
     (if path ! i = CHR ''/'' then
        (if \<not> bn_matchedSlash st then st\<lparr>bn_start := int i + 1\<rparr>
         else basename_loop path i st)
      else if bn_end st = -1 then
        basename_loop path i (st\<lparr>bn_matchedSlash := False, bn_end := int i + 1\<rparr>)
      else basename_loop path i st)"

fun basename_suffix_loop :: "string \<Rightarrow> string \<Rightarrow> nat \<Rightarrow> basename_state \<Rightarrow> basename_state" where
  \<comment> \<open>The loop of \<open>basename(path, suffix)\<close> for a non-empty suffix no longer than the path.\<close>
  "basename_suffix_loop path suffix 0 st = st"
| "basename_suffix_loop path suffix (Suc i) st =
     (if path ! i = CHR ''/'' then
        (if \<not> bn_matchedSlash st then st\<lparr>bn_start := int i + 1\<rparr>
         else basename_suffix_loop path suffix i st)
      else
        (let st1 = (if bn_firstNonSlashEnd st = -1
                    then st\<lparr>bn_matchedSlash := False, bn_firstNonSlashEnd := int i + 1\<rparr>
                    else st);
             st2 = (if bn_extIdx st1 \<ge> 0 then
                      (if path ! i = suffix ! nat (bn_extIdx st1) then
                         (if bn_extIdx st1 - 1 = -1
                          then st1\<lparr>bn_extIdx := bn_extIdx st1 - 1, bn_end := int i\<rparr>
                          else st1\<lparr>bn_extIdx := bn_extIdx st1 - 1\<rparr>)
                       else st1\<lparr>bn_extIdx := -1, bn_end := bn_firstNonSlashEnd st1\<rparr>)
                    else st1)
         in basename_suffix_loop path suffix i st2))"

definition basename :: "string \<Rightarrow> string option \<Rightarrow> string" where
  \<comment> \<open>\<open>basename(path, suffix)\<close>; \<open>None\<close> is a call without the second argument.\<close>
  "basename path suffix =
     (let st0 = \<lparr>bn_start = 0, bn_end = -1, bn_matchedSlash = True,
                 bn_extIdx = 0, bn_firstNonSlashEnd = -1\<rparr>
      in case suffix of
           Some sfx \<Rightarrow>
             (if length sfx > 0 \<and> length sfx \<le> length path then
                (if sfx = path then []
                 else
                   (let st = basename_suffix_loop path sfx (length path)
                               (st0\<lparr>bn_extIdx := int (length sfx) - 1\<rparr>);
                        e = (if bn_start st = bn_end st then bn_firstNonSlashEnd st
                             else if bn_end st = -1 then int (length path)
                             else bn_end st)
                    in js_slice path (bn_start st) e))
              else
                (let st = basename_loop path (length path) st0
                 in if bn_end st = -1 then [] else js_slice path (bn_start st) (bn_end st)))
         | None \<Rightarrow>
             (let st = basename_loop path (length path) st0
              in if bn_end st = -1 then [] else js_slice path (bn_start st) (bn_end st)))"

record extname_state =
  en_startDot :: int
  en_startPart :: int
  en_end :: int
  en_matchedSlash :: bool
  en_preDotState :: int

fun extname_loop :: "string \<Rightarrow> nat \<Rightarrow> extname_state \<Rightarrow> extname_state" where
  \<comment> \<open>\<open>for (i = path.length - 1; i >= 0; --i)\<close>; \<open>Suc i\<close> stands for index \<open>i\<close>.\<close>
  "extname_loop path 0 st = st"
| "extname_loop path (Suc i) st =
     (if path ! i = CHR ''/'' then
        (if \<not> en_matchedSlash st then st\<lparr>en_startPart := int i + 1\<rparr>
         else extname_loop path i st)
      else
        (let st1 = (if en_end st = -1
                    then st\<lparr>en_matchedSlash := False, en_end := int i + 1\<rparr>
                    else st);
             st2 = (if path ! i = CHR ''.'' then
                      (if en_startDot st1 = -1 then st1\<lparr>en_startDot := int i\<rparr>
                       else if en_preDotState st1 \<noteq> 1 then st1\<lparr>en_preDotState := 1\<rparr>
                       else st1)
                    else if en_startDot st1 \<noteq> -1 then st1\<lparr>en_preDotState := -1\<rparr>
                    else st1)
         in extname_loop path i st2))"

definition extname :: "string \<Rightarrow> string" where
  "extname path =
     (let st = extname_loop path (length path)
                 \<lparr>en_startDot = -1, en_startPart = 0, en_end = -1,
                  en_matchedSlash = True, en_preDotState = 0\<rparr>
      in if en_startDot st = -1 \<or> en_end st = -1 \<or> en_preDotState st = 0 \<or>
            (en_preDotState st = 1 \<and> en_startDot st = en_end st - 1 \<and>
             en_startDot st = en_startPart st + 1)
         then []
         else js_slice path (en_startDot st) (en_end st))"

section \<open>Values, options and the world of \<open>lib/view.js\<close>\<close>

datatype jsval =
    JUndefined
  | JNull
  | JBool bool
  | JNum int
  | JStr string
  | JFunction nat   \<comment> \<open>a function, identified by its reference\<close>
  | JObject nat     \<comment> \<open>any other object, identified by its reference\<close>

fun truthy :: "jsval \<Rightarrow> bool" where
  "truthy JUndefined = False"
| "truthy JNull = False"
| "truthy (JBool b) = b"
| "truthy (JNum n) = (n \<noteq> 0)"
| "truthy (JStr s) = (s \<noteq> [])"
| "truthy (JFunction f) = True"
| "truthy (JObject a) = True"

fun is_function :: "jsval \<Rightarrow> bool" where
  \<comment> \<open>\<open>typeof v === 'function'\<close>\<close>
  "is_function (JFunction f) = True"
| "is_function v = False"

type_synonym jsobject = "string \<rightharpoonup> jsval"

definition get_prop :: "jsobject \<Rightarrow> string \<Rightarrow> jsval" where
  \<comment> \<open>\<open>obj[key]\<close>: a missing property reads as \<open>undefined\<close>.\<close>
  "get_prop obj key = (case obj key of None \<Rightarrow> JUndefined | Some v \<Rightarrow> v)"

datatype roots_value =
    RootUndefined            \<comment> \<open>the option \<open>root\<close> is not given\<close>
  | RootString string        \<comment> \<open>one directory\<close>
  | RootArray "string list"  \<comment> \<open>an array of directories\<close>

definition concat_root :: "roots_value \<Rightarrow> string option list" where
  \<comment> \<open>\<open>[].concat(this.root)\<close>: an array is spread, anything else becomes the only element;
      \<open>None\<close> is the element \<open>undefined\<close>.\<close>
  "concat_root r =
     (case r of
        RootUndefined \<Rightarrow> [None]
      | RootString d \<Rightarrow> [Some d]
      | RootArray ds \<Rightarrow> map Some ds)"

record options =
  opt_defaultEngine :: "string option"  \<comment> \<open>\<open>None\<close>: the property is \<open>undefined\<close>\<close>
  opt_engines :: "nat option"           \<comment> \<open>a reference to the registry object, or \<open>undefined\<close>\<close>
  opt_root :: roots_value

definition empty_options :: options where
  \<comment> \<open>the object \<open>{}\<close> of \<open>options || {}\<close>\<close>
  "empty_options = \<lparr>opt_defaultEngine = None, opt_engines = None, opt_root = RootUndefined\<rparr>"

datatype errno = ENOENT | EACCES | ENOTDIR | ELOOP | EIO

datatype stats = RegularFile | Directory | OtherKind

fun isFile :: "stats \<Rightarrow> bool" where
  "isFile RegularFile = True"
| "isFile Directory = False"
| "isFile OtherKind = False"

record env =
  cwd :: string                                       \<comment> \<open>\<open>process.cwd()\<close>\<close>
  statSync :: "string \<Rightarrow> errno + stats"               \<comment> \<open>\<open>fs.statSync\<close>: throws or returns\<close>
  require_express :: "string \<Rightarrow> error + jsval"        \<comment> \<open>\<open>require(mod).__express\<close>: throws or returns\<close>

record world =
  heap :: "nat \<Rightarrow> jsobject"    \<comment> \<open>the objects, by reference; holds the engine registries\<close>
  stat_log :: "string list"   \<comment> \<open>the paths given to \<open>statSync\<close>, oldest first\<close>
  require_log :: "string list" \<comment> \<open>the module names given to \<open>require\<close>, oldest first\<close>

record view =
  this_defaultEngine :: "string option"
  this_ext :: string
  this_name :: string
  this_root :: roots_value
  this_engine :: jsval
  this_path :: "string option"   \<comment> \<open>\<open>None\<close>: \<open>undefined\<close>\<close>

datatype ('o, 'c) invocation =
  Invoke nat "string option" 'o 'c  \<comment> \<open>the call \<open>f(path, options, callback)\<close>\<close>

section \<open>The class \<open>View\<close>\<close>

text \<open>
  Every method takes the environment and the world and returns the world it leaves; a
  method that can throw returns \<open>Inl\<close> of the error. The calls of \<open>debug\<close> only log and
  are left out. The constructor throws two errors of its own, both plain \<open>Error\<close>s: the one
  of line 44 (no extension and no default engine) and the one of line 65 (the module
  provides no view engine).
\<close>

definition View_tryStat :: "env \<Rightarrow> string \<Rightarrow> world \<Rightarrow> stats option \<times> world" where
  \<comment> \<open>\<open>try { return statSync(path) } catch (e) { return undefined }\<close>\<close>
  "View_tryStat E p w =
     ((case statSync E p of Inl e \<Rightarrow> None | Inr st \<Rightarrow> Some st),
      w\<lparr>stat_log := stat_log w @ [p]\<rparr>)"

definition stat_isFile :: "stats option \<Rightarrow> bool" where
  \<comment> \<open>\<open>stat && stat.isFile()\<close>\<close>
  "stat_isFile stat = (case stat of None \<Rightarrow> False | Some st \<Rightarrow> isFile st)"

definition View_resolve :: "env \<Rightarrow> view \<Rightarrow> string \<Rightarrow> string \<Rightarrow> world \<Rightarrow> string option \<times> world" where
  "View_resolve E this dir file w =
     (let e = this_ext this;
          p1 = join [dir, file];
          (stat1, w1) = View_tryStat E p1 w
      in if stat_isFile stat1 then (Some p1, w1)
         else
           (let p2 = join [dir, basename file (Some e), ''index'' @ e];
                (stat2, w2) = View_tryStat E p2 w1
            in if stat_isFile stat2 then (Some p2, w2) else (None, w2)))"

definition falsy_path :: "string option \<Rightarrow> bool" where
  \<comment> \<open>\<open>!path\<close>: \<open>undefined\<close> and the empty string are falsy\<close>
  "falsy_path p = (p = None \<or> p = Some [])"

fun lookup_loop ::
  "env \<Rightarrow> view \<Rightarrow> string \<Rightarrow> string option list \<Rightarrow> string option \<Rightarrow> world
   \<Rightarrow> (error + string option) \<times> world" where
  \<comment> \<open>\<open>for (i = 0; i < roots.length && !path; i++)\<close>; the list holds the roots from \<open>i\<close> on.\<close>
  "lookup_loop E this fileName [] p w = (Inr p, w)"
| "lookup_loop E this fileName (r # roots) p w =
     (if \<not> falsy_path p then (Inr p, w)
      else
        (case resolve (cwd E) [r, Some fileName] of
           Inl err \<Rightarrow> (Inl err, w)
         | Inr loc \<Rightarrow>
             (let dir = dirname loc;
                  file = basename loc None;
                  (p', w') = View_resolve E this dir file w
              in lookup_loop E this fileName roots p' w')))"

definition View_lookup :: "env \<Rightarrow> view \<Rightarrow> string \<Rightarrow> world \<Rightarrow> (error + string option) \<times> world" where
  "View_lookup E this fileName w =
     lookup_loop E this fileName (concat_root (this_root this)) None w"

definition View_render :: "view \<Rightarrow> 'o \<Rightarrow> 'c \<Rightarrow> error + ('o, 'c) invocation" where
  \<comment> \<open>\<open>this.engine(this.path, options, callback)\<close>: calling a value that is not a function
      raises a \<open>TypeError\<close>; what the engine does is the engine's.\<close>
  "View_render this opts callback =
     (case this_engine this of
        JFunction f \<Rightarrow> Inr (Invoke f (this_path this) opts callback)
      | _ \<Rightarrow> Inl (TypeError ''this.engine is not a function''))"

definition load_engine :: "env \<Rightarrow> string \<Rightarrow> nat \<Rightarrow> world \<Rightarrow> (error + unit) \<times> world" where
  \<comment> \<open>Lines 56 to 69 of the constructor, for \<open>this.ext = e\<close> and \<open>opts.engines\<close> the object
      at reference \<open>r\<close>.\<close>
  "load_engine E e r w =
     (if \<not> truthy (get_prop (heap w r) e) then
        (let modname = drop 1 e;
             w1 = w\<lparr>require_log := require_log w @ [modname]\<rparr>
         in case require_express E modname of
              Inl err \<Rightarrow> (Inl err, w1)
            | Inr fn \<Rightarrow>
                if \<not> is_function fn then
                  (Inl (Error (''Module '' @ modname @ '' does not provide a view engine.'')), w1)
                else
                  (Inr (), w1\<lparr>heap := (heap w1)(r := (heap w1 r)(e \<mapsto> fn))\<rparr>))
      else (Inr (), w))"

definition infer_extension :: "string \<Rightarrow> options \<Rightarrow> error + (view \<times> string)" where
  \<comment> \<open>Lines 38 to 54 of the constructor: the fields of \<open>this\<close> set so far and the local
      \<open>fileName\<close>. \<open>!this.defaultEngine\<close> holds for \<open>undefined\<close> and for the empty string.\<close>
  "infer_extension nm opts =
     (let this0 = \<lparr>this_defaultEngine = opt_defaultEngine opts, this_ext = extname nm,
                   this_name = nm, this_root = opt_root opts,
                   this_engine = JUndefined, this_path = None\<rparr>
      in if this_ext this0 = [] then
           (case this_defaultEngine this0 of
              None \<Rightarrow>
                Inl (Error ''No default engine was specified and no extension was provided.'')
            | Some [] \<Rightarrow>
                Inl (Error ''No default engine was specified and no extension was provided.'')
            | Some (c # cs) \<Rightarrow>
                (let e = (if c \<noteq> CHR ''.'' then ''.'' @ (c # cs) else c # cs)
                 in Inr (this0\<lparr>this_ext := e\<rparr>, nm @ e)))
         else Inr (this0, nm))"

definition View_constructor ::
  "env \<Rightarrow> string \<Rightarrow> options option \<Rightarrow> world \<Rightarrow> (error + view) \<times> world" where
  "View_constructor E nm options w =
     (let opts = (case options of None \<Rightarrow> empty_options | Some ob \<Rightarrow> ob)
      in case infer_extension nm opts of
           Inl err \<Rightarrow> (Inl err, w)
         | Inr (this1, fileName) \<Rightarrow>
             (case opt_engines opts of
                None \<Rightarrow> (Inl (TypeError ''Cannot read properties of undefined''), w)
              | Some r \<Rightarrow>
                  (case load_engine E (this_ext this1) r w of
                     (Inl err, w1) \<Rightarrow> (Inl err, w1)
                   | (Inr u, w1) \<Rightarrow>
                       (let this2 = this1\<lparr>this_engine := get_prop (heap w1 r) (this_ext this1)\<rparr>
                        in case View_lookup E this2 fileName w1 of
                             (Inl err, w2) \<Rightarrow> (Inl err, w2)
                           | (Inr p, w2) \<Rightarrow> (Inr (this2\<lparr>this_path := p\<rparr>), w2)))))"

section \<open>Notions used to state the properties\<close>

definition is_regular_file :: "env \<Rightarrow> string \<Rightarrow> bool" where
  \<comment> \<open>the path exists and \<open>statSync\<close> reports a regular file\<close>
  "is_regular_file E p = (case statSync E p of Inl e \<Rightarrow> False | Inr st \<Rightarrow> isFile st)"

definition exact_path :: "string \<Rightarrow> string" where
  \<comment> \<open>the first path \<open>View.resolve\<close> probes for the location \<open>loc\<close>\<close>
  "exact_path loc = join [dirname loc, basename loc None]"

definition index_path :: "string \<Rightarrow> string \<Rightarrow> string" where
  \<comment> \<open>the second path \<open>View.resolve\<close> probes for the location \<open>loc\<close> and extension \<open>e\<close>\<close>
  "index_path e loc = join [dirname loc, basename (basename loc None) (Some e), ''index'' @ e]"

definition candidate_paths :: "env \<Rightarrow> string \<Rightarrow> string \<Rightarrow> string option \<Rightarrow> string list" where
  \<comment> \<open>the two paths of one root, in the order of the probes\<close>
  "candidate_paths E e fileName r =
     (case resolve (cwd E) [r, Some fileName] of
        Inl err \<Rightarrow> []
      | Inr loc \<Rightarrow> [exact_path loc, index_path e loc])"

definition probed_paths :: "env \<Rightarrow> string \<Rightarrow> string \<Rightarrow> string option \<Rightarrow> string list" where
  \<comment> \<open>the candidates of one root up to and including the first regular file\<close>
  "probed_paths E e fileName r =
     (let cs = candidate_paths E e fileName r
      in takeWhile (\<lambda>p. \<not> is_regular_file E p) cs @
         take 1 (dropWhile (\<lambda>p. \<not> is_regular_file E p) cs))"

section \<open>A concrete environment\<close>

definition example_statSync :: "string \<Rightarrow> errno + stats" where
  "example_statSync p =
     (if p = ''/views/index.html'' then Inr RegularFile
      else if p = ''/views/index'' then Inr Directory
      else if p = ''/pages/index'' then Inr Directory
      else if p = ''/pages/index/index.html'' then Inr RegularFile
      else if p = ''/secret/index.html'' then Inl EACCES
      else Inl ENOENT)"

definition example_require :: "string \<Rightarrow> error + jsval" where
  "example_require m =
     (if m = ''html'' then Inr (JFunction 7)
      else if m = ''txt'' then Inr (JObject 3)
      else Inl (Error ''Cannot find module''))"

definition example_env :: env where
  "example_env = \<lparr>cwd = ''/app'', statSync = example_statSync,
                   require_express = example_require\<rparr>"

definition example_world :: world where
  "example_world = \<lparr>heap = (\<lambda>r. Map.empty), stat_log = [], require_log = []\<rparr>"

definition example_view :: "roots_value \<Rightarrow> view" where
  "example_view rt = \<lparr>this_defaultEngine = Some ''html'', this_ext = ''.html'',
                       this_name = ''index'', this_root = rt,
                       this_engine = JFunction 7, this_path = None\<rparr>"

definition example_options :: "roots_value \<Rightarrow> options" where
  "example_options rt = \<lparr>opt_defaultEngine = Some ''html'', opt_engines = Some 0,
                          opt_root = rt\<rparr>"

definition example_env_index :: env where
  \<comment> \<open>a file system where only the directory index exists under \<open>/views\<close>\<close>
  "example_env_index =
     \<lparr>cwd = ''/app'',
      statSync = (\<lambda>p. if p = ''/views/index/index.html'' then Inr RegularFile
                       else if p = ''/views/index'' then Inr Directory
                       else Inl ENOENT),
      require_express = example_require\<rparr>"

definition example_world_bound :: world where
  "example_world_bound =
     \<lparr>heap = (\<lambda>r. if r = 0 then [''.html'' \<mapsto> JFunction 7] else Map.empty),
      stat_log = [], require_log = []\<rparr>"

definition example_env_enoent :: env where
  \<comment> \<open>the concrete file system with every path that is not a regular file reported missing\<close>
  "example_env_enoent =
     \<lparr>cwd = ''/app'',
      statSync = (\<lambda>p. if p = ''/views/index.html'' \<or> p = ''/pages/index/index.html''
                       then Inr RegularFile else Inl ENOENT),
      require_express = example_require\<rparr>"

definition extname_inv :: "string \<Rightarrow> nat \<Rightarrow> extname_state \<Rightarrow> bool" where
  \<comment> \<open>the invariant of the loop of \<open>extname\<close> before index \<open>n - 1\<close> is read\<close>
  "extname_inv path n st \<longleftrightarrow>
     (en_end st = -1 \<or> (int n < en_end st \<and> en_end st \<le> int (length path))) \<and>
     (en_startDot st = -1 \<or>
        (int n \<le> en_startDot st \<and> en_startDot st < en_end st \<and>
         path ! nat (en_startDot st) = CHR ''.''))"

section \<open>Auxiliary facts\<close>

lemma normalize_nonempty: "normalize p \<noteq> []"
  by (simp add: normalize_def Let_def)

lemma join_nonempty: "join args \<noteq> []"
  by (simp add: join_def normalize_nonempty split: option.split)

lemma View_resolve_eq:
  "View_resolve E this dir file w =
     (let p1 = join [dir, file];
          p2 = join [dir, basename file (Some (this_ext this)), ''index'' @ this_ext this]
      in if is_regular_file E p1 then (Some p1, w\<lparr>stat_log := stat_log w @ [p1]\<rparr>)
         else if is_regular_file E p2 then (Some p2, w\<lparr>stat_log := stat_log w @ [p1, p2]\<rparr>)
         else (None, w\<lparr>stat_log := stat_log w @ [p1, p2]\<rparr>))"
  by (simp add: View_resolve_def View_tryStat_def stat_isFile_def is_regular_file_def Let_def
      split: sum.split)

lemma resolve_loop_strings: "\<exists>x. resolve_loop c (map Some xs) acc = Inr x"
  by (induction xs arbitrary: acc) auto

lemma resolve_strings: "\<exists>loc. resolve c [Some a, Some b] = Inr loc"
proof -
  obtain x where "resolve_loop c (map Some [b, a]) [] = Inr x"
    using resolve_loop_strings by blast
  then show ?thesis
    by (cases x) (simp add: resolve_def Let_def)
qed

lemma lookup_loop_found: "\<not> falsy_path p \<Longrightarrow> lookup_loop E this f roots p w = (Inr p, w)"
  by (cases roots) simp_all

lemma lookup_loop_step:
  assumes "resolve (cwd E) [r, Some f] = Inr loc"
  shows "lookup_loop E this f (r # roots) None w =
           lookup_loop E this f roots
             (find (is_regular_file E) (candidate_paths E (this_ext this) f r))
             (w\<lparr>stat_log := stat_log w @ probed_paths E (this_ext this) f r\<rparr>)"
  using assms
  by (simp add: falsy_path_def View_resolve_eq candidate_paths_def probed_paths_def
      exact_path_def index_path_def Let_def)

lemma find_None_probed:
  "\<forall>p\<in>set (candidate_paths E e f r). \<not> is_regular_file E p \<Longrightarrow>
   find (is_regular_file E) (candidate_paths E e f r) = None \<and>
   probed_paths E e f r = candidate_paths E e f r"
  by (simp add: probed_paths_def Let_def find_None_iff takeWhile_eq_all_conv[THEN iffD2]
      dropWhile_eq_Nil_conv[THEN iffD2])

lemma lookup_loop_misses:
  assumes "\<forall>r\<in>set pre. \<forall>p\<in>set (candidate_paths E (this_ext this) f (Some r)).
             \<not> is_regular_file E p"
  shows "lookup_loop E this f (map Some pre @ rest) None w =
         lookup_loop E this f rest None
           (w\<lparr>stat_log := stat_log w @
                concat (map (\<lambda>r. candidate_paths E (this_ext this) f (Some r)) pre)\<rparr>)"
  using assms
proof (induction pre arbitrary: w)
  case Nil
  then show ?case by simp
next
  case (Cons a pre)
  obtain loc where loc: "resolve (cwd E) [Some a, Some f] = Inr loc"
    using resolve_strings by blast
  have a: "find (is_regular_file E) (candidate_paths E (this_ext this) f (Some a)) = None"
    "probed_paths E (this_ext this) f (Some a) = candidate_paths E (this_ext this) f (Some a)"
    using Cons.prems find_None_probed[of E "this_ext this" f "Some a"] by simp_all
  show ?case
    using Cons.IH[of "w\<lparr>stat_log := stat_log w @
                          candidate_paths E (this_ext this) f (Some a)\<rparr>"] Cons.prems
    by (simp add: lookup_loop_step[OF loc] a del: lookup_loop.simps)
qed

lemma candidate_nonempty: "p \<in> set (candidate_paths E e f r) \<Longrightarrow> p \<noteq> []"
  by (auto simp: candidate_paths_def exact_path_def index_path_def join_nonempty
      split: sum.splits dest: sym)

subsection \<open>Evaluations in the concrete environment\<close>

lemma example_candidates_a:
  "candidate_paths example_env ''.html'' ''index.html'' (Some ''/a'') =
     [''/a/index.html'', ''/a/index/index.html'']"
  by code_simp

lemma example_candidates_views:
  "candidate_paths example_env ''.html'' ''index.html'' (Some ''/views'') =
     [''/views/index.html'', ''/views/index/index.html'']"
  by code_simp

lemma example_regular:
  "is_regular_file example_env ''/views/index.html''"
  "\<not> is_regular_file example_env ''/views/index/index.html''"
  "\<not> is_regular_file example_env ''/a/index.html''"
  "\<not> is_regular_file example_env ''/a/index/index.html''"
  "\<not> is_regular_file example_env ''/pages/index.html''"
  "is_regular_file example_env ''/pages/index/index.html''"
  by (simp_all add: is_regular_file_def example_env_def example_statSync_def)

lemma extname_index: "extname ''index'' = []"
  by code_simp

lemma constructor_success:
  assumes "infer_extension nm opts = Inr (this1, fileName)"
    and "opt_engines opts = Some r"
    and "load_engine E (this_ext this1) r w = (Inr (), w1)"
    and "View_lookup E (this1\<lparr>this_engine := get_prop (heap w1 r) (this_ext this1)\<rparr>) fileName w1
           = (Inr p, w2)"
  shows "View_constructor E nm (Some opts) w =
           (Inr (this1\<lparr>this_engine := get_prop (heap w1 r) (this_ext this1), this_path := p\<rparr>), w2)"
  using assms by (simp add: View_constructor_def Let_def)

lemma lookup_single_root:
  assumes "this_root this = RootString d"
  shows "View_lookup E this f w =
           (Inr (find (is_regular_file E) (candidate_paths E (this_ext this) f (Some d))),
            w\<lparr>stat_log := stat_log w @ probed_paths E (this_ext this) f (Some d)\<rparr>)"
proof -
  obtain loc where loc: "resolve (cwd E) [Some d, Some f] = Inr loc"
    using resolve_strings by blast
  show ?thesis
    by (simp add: View_lookup_def concat_root_def assms lookup_loop_step[OF loc]
        del: lookup_loop.simps) simp
qed

lemma resolve_views_index: "resolve c [Some ''/views'', Some ''index.html''] = Inr ''/views/index.html''"
proof -
  have "normalizeString ''/views/index.html/'' False = ''views/index.html''"
    by code_simp
  then show ?thesis
    by (simp add: resolve_def)
qed

lemma exact_views_index: "exact_path ''/views/index.html'' = ''/views/index.html''"
  by code_simp

lemma index_views_index: "index_path ''.html'' ''/views/index.html'' = ''/views/index/index.html''"
  by code_simp

lemma candidates_views_index:
  "candidate_paths E ''.html'' ''index.html'' (Some ''/views'') =
     [''/views/index.html'', ''/views/index/index.html'']"
  by (simp add: candidate_paths_def resolve_views_index exact_views_index index_views_index)

lemma infer_index_html:
  "infer_extension ''index'' \<lparr>opt_defaultEngine = Some ''html'', opt_engines = eo, opt_root = rt\<rparr> =
     Inr (\<lparr>this_defaultEngine = Some ''html'', this_ext = ''.html'', this_name = ''index'',
           this_root = rt, this_engine = JUndefined, this_path = None\<rparr>, ''index.html'')"
  by (simp add: infer_extension_def extname_index Let_def)

lemma View_resolve_world:
  "heap (snd (View_resolve E this dir file w)) = heap w \<and>
   require_log (snd (View_resolve E this dir file w)) = require_log w"
  by (simp add: View_resolve_eq Let_def)

lemma lookup_loop_world:
  "heap (snd (lookup_loop E this f roots p w)) = heap w \<and>
   require_log (snd (lookup_loop E this f roots p w)) = require_log w"
proof (induction roots arbitrary: p w)
  case Nil
  then show ?case by simp
next
  case (Cons r roots)
  show ?case
  proof (cases "resolve (cwd E) [r, Some f]")
    case (Inl e)
    then show ?thesis by simp
  next
    case (Inr loc)
    obtain p' w' where vr: "View_resolve E this (dirname loc) (basename loc None) w = (p', w')"
      by (cases "View_resolve E this (dirname loc) (basename loc None) w")
    have "heap w' = heap w \<and> require_log w' = require_log w"
      using View_resolve_world[of E this "dirname loc" "basename loc None" w] vr by simp
    then show ?thesis
      using Cons.IH[of p' w'] Inr vr by (simp add: Let_def)
  qed
qed

lemma View_lookup_world:
  "heap (snd (View_lookup E this f w)) = heap w \<and>
   require_log (snd (View_lookup E this f w)) = require_log w"
  by (simp add: View_lookup_def lookup_loop_world)

lemma load_engine_bound:
  assumes "truthy (get_prop (heap w r) e)"
  shows "load_engine E e r w = (Inr (), w)"
  using assms by (simp add: load_engine_def)

lemma load_engine_unbound:
  assumes "\<not> truthy (get_prop (heap w r) e)"
  shows "load_engine E e r w =
           (case require_express E (drop 1 e) of
              Inl err \<Rightarrow> (Inl err, w\<lparr>require_log := require_log w @ [drop 1 e]\<rparr>)
            | Inr fn \<Rightarrow>
                if is_function fn
                then (Inr (), w\<lparr>require_log := require_log w @ [drop 1 e],
                                heap := (heap w)(r := (heap w r)(e \<mapsto> fn))\<rparr>)
                else (Inl (Error (''Module '' @ drop 1 e @ '' does not provide a view engine.'')),
                      w\<lparr>require_log := require_log w @ [drop 1 e]\<rparr>))"
  using assms by (simp add: load_engine_def Let_def split: sum.split)

lemma load_engine_success_truthy:
  assumes "load_engine E e r w = (Inr u, w1)"
  shows "truthy (get_prop (heap w1 r) e)"
proof (cases "truthy (get_prop (heap w r) e)")
  case True
  then show ?thesis using assms by (simp add: load_engine_bound)
next
  case False
  then show ?thesis
    using assms
    by (cases "require_express E (drop 1 e)")
       (auto simp: load_engine_unbound get_prop_def split: if_splits elim: is_function.elims)
qed

lemma constructor_unfold:
  assumes "infer_extension nm opts = Inr (this1, fileName)"
    and "opt_engines opts = Some r"
  shows "View_constructor E nm (Some opts) w =
           (case load_engine E (this_ext this1) r w of
              (Inl err, w1) \<Rightarrow> (Inl err, w1)
            | (Inr u, w1) \<Rightarrow>
                (case View_lookup E (this1\<lparr>this_engine := get_prop (heap w1 r) (this_ext this1)\<rparr>)
                        fileName w1 of
                   (Inl err, w2) \<Rightarrow> (Inl err, w2)
                 | (Inr p, w2) \<Rightarrow>
                     (Inr (this1\<lparr>this_engine := get_prop (heap w1 r) (this_ext this1),
                                 this_path := p\<rparr>), w2)))"
  using assms by (simp add: View_constructor_def Let_def split: prod.split sum.split)

lemma constructor_world:
  assumes "infer_extension nm opts = Inr (this1, fileName)"
    and "opt_engines opts = Some r"
  shows "heap (snd (View_constructor E nm (Some opts) w)) =
           heap (snd (load_engine E (this_ext this1) r w)) \<and>
         require_log (snd (View_constructor E nm (Some opts) w)) =
           require_log (snd (load_engine E (this_ext this1) r w))"
proof (cases "load_engine E (this_ext this1) r w")
  case (Pair res w1)
  show ?thesis
  proof (cases res)
    case (Inl err)
    then show ?thesis using Pair by (simp add: constructor_unfold[OF assms])
  next
    case (Inr u)
    let ?t = "this1\<lparr>this_engine := get_prop (heap w1 r) (this_ext this1)\<rparr>"
    obtain res2 w2 where lk: "View_lookup E ?t fileName w1 = (res2, w2)"
      by (cases "View_lookup E ?t fileName w1")
    have "heap w2 = heap w1 \<and> require_log w2 = require_log w1"
      using View_lookup_world[of E ?t fileName w1] lk by simp
    then show ?thesis
      using Pair Inr lk by (cases res2) (simp_all add: constructor_unfold[OF assms])
  qed
qed

lemma infer_notes_txt:
  "infer_extension ''notes.txt'' (example_options rt) =
     Inr (\<lparr>this_defaultEngine = Some ''html'', this_ext = ''.txt'', this_name = ''notes.txt'',
           this_root = rt, this_engine = JUndefined, this_path = None\<rparr>, ''notes.txt'')"
proof -
  have "extname ''notes.txt'' = ''.txt''" by code_simp
  then show ?thesis
    by (simp add: infer_extension_def example_options_def Let_def)
qed

lemma infer_index_example:
  "infer_extension ''index'' (example_options rt) =
     Inr (\<lparr>this_defaultEngine = Some ''html'', this_ext = ''.html'', this_name = ''index'',
           this_root = rt, this_engine = JUndefined, this_path = None\<rparr>, ''index.html'')"
  by (simp add: example_options_def infer_index_html)

lemma constructor_Inr_elim:
  assumes "View_constructor E nm (Some opts) w = (Inr v, w')"
    and "opt_engines opts = Some r"
  obtains this1 fileName w1 where
    "infer_extension nm opts = Inr (this1, fileName)"
    "load_engine E (this_ext this1) r w = (Inr (), w1)"
    "View_lookup E (this1\<lparr>this_engine := get_prop (heap w1 r) (this_ext this1)\<rparr>) fileName w1 =
       (Inr (this_path v), w')"
    "v = this1\<lparr>this_engine := get_prop (heap w1 r) (this_ext this1), this_path := this_path v\<rparr>"
proof (cases "infer_extension nm opts")
  case (Inl err)
  then show ?thesis
    using assms by (simp add: View_constructor_def)
next
  case (Inr x)
  obtain this1 fileName where x: "x = (this1, fileName)" by (cases x)
  have inf: "infer_extension nm opts = Inr (this1, fileName)"
    using Inr x by simp
  obtain res w1 where le: "load_engine E (this_ext this1) r w = (res, w1)"
    by (cases "load_engine E (this_ext this1) r w")
  let ?t = "this1\<lparr>this_engine := get_prop (heap w1 r) (this_ext this1)\<rparr>"
  obtain res2 w2 where lk: "View_lookup E ?t fileName w1 = (res2, w2)"
    by (cases "View_lookup E ?t fileName w1")
  have c: "View_constructor E nm (Some opts) w = (Inr v, w')"
    by (rule assms(1))
  from c le lk have r1: "res = Inr ()"
    by (cases res) (simp_all add: constructor_unfold[OF inf assms(2)])
  from c le lk r1 have r2: "res2 = Inr (this_path v) \<and> w2 = w' \<and>
      v = ?t\<lparr>this_path := this_path v\<rparr>"
    by (cases res2) (auto simp: constructor_unfold[OF inf assms(2)])
  show ?thesis
    using that[OF inf] le lk r1 r2 by simp
qed

lemma is_regular_file_iff: "is_regular_file E p \<longleftrightarrow> statSync E p = Inr RegularFile"
  by (auto simp: is_regular_file_def split: sum.splits elim: isFile.elims)

lemma lookup_loop_Cons:
  "lookup_loop E this f (r # roots) p0 w =
     (if \<not> falsy_path p0 then (Inr p0, w)
      else case resolve (cwd E) [r, Some f] of
             Inl err \<Rightarrow> (Inl err, w)
           | Inr loc \<Rightarrow>
               lookup_loop E this f roots
                 (find (is_regular_file E) (candidate_paths E (this_ext this) f r))
                 (w\<lparr>stat_log := stat_log w @ probed_paths E (this_ext this) f r\<rparr>))"
  by (simp add: View_resolve_eq candidate_paths_def probed_paths_def
      exact_path_def index_path_def Let_def split: sum.split)

lemma find_regular: "find (is_regular_file E) cs = Some p \<Longrightarrow> is_regular_file E p"
  by (auto simp: find_Some_iff)

lemma lookup_loop_regular:
  "lookup_loop E this f roots p0 w = (Inr (Some p), w') \<Longrightarrow> p0 = Some p \<or> is_regular_file E p"
proof (induction roots arbitrary: p0 w)
  case Nil
  then show ?case by simp
next
  case (Cons r roots)
  show ?case
  proof (cases "falsy_path p0")
    case False
    then show ?thesis using Cons.prems by (simp del: lookup_loop.simps add: lookup_loop_Cons)
  next
    case True
    show ?thesis
    proof (cases "resolve (cwd E) [r, Some f]")
      case (Inl e)
      then show ?thesis using Cons.prems True by (simp del: lookup_loop.simps add: lookup_loop_Cons)
    next
      case (Inr loc)
      let ?q = "find (is_regular_file E) (candidate_paths E (this_ext this) f r)"
      have "lookup_loop E this f roots ?q
              (w\<lparr>stat_log := stat_log w @ probed_paths E (this_ext this) f r\<rparr>) = (Inr (Some p), w')"
        using Cons.prems True Inr by (simp del: lookup_loop.simps add: lookup_loop_Cons)
      then have "?q = Some p \<or> is_regular_file E p"
        by (rule Cons.IH)
      then show ?thesis
        using find_regular by blast
    qed
  qed
qed

lemma candidate_paths_cong:
  "cwd E' = cwd E \<Longrightarrow> candidate_paths E' e f r = candidate_paths E e f r"
  by (simp add: candidate_paths_def)

lemma lookup_loop_cong:
  assumes "cwd E' = cwd E" and "\<forall>q. is_regular_file E' q = is_regular_file E q"
  shows "lookup_loop E' this f roots p0 w = lookup_loop E this f roots p0 w"
proof -
  have P: "is_regular_file E' = is_regular_file E"
    using assms(2) by auto
  show ?thesis
  proof (induction roots arbitrary: p0 w)
    case Nil
    then show ?case by simp
  next
    case (Cons r roots)
    have pp: "probed_paths E' (this_ext this) f r = probed_paths E (this_ext this) f r"
      by (simp add: probed_paths_def candidate_paths_cong[OF assms(1)] P)
    show ?case
      by (simp del: lookup_loop.simps
          add: lookup_loop_Cons candidate_paths_cong[OF assms(1)] P pp assms(1) Cons.IH
          split: sum.split)
  qed
qed

lemma resolve_loop_error:
  "resolve_loop c args acc = Inl e \<Longrightarrow>
     e = TypeError ''The paths[i] argument must be of type string'' \<and> None \<in> set args"
  by (induction c args acc rule: resolve_loop.induct) (auto split: if_splits)

lemma resolve_error:
  "resolve c args = Inl e \<Longrightarrow>
     e = TypeError ''The paths[i] argument must be of type string'' \<and> None \<in> set args"
  using resolve_loop_error[of c "rev args" "[]" e]
  by (auto simp: resolve_def Let_def split: sum.splits prod.splits if_splits)

lemma lookup_loop_error:
  "lookup_loop E this f roots p0 w = (Inl e, w') \<Longrightarrow>
     e = TypeError ''The paths[i] argument must be of type string'' \<and> None \<in> set roots"
proof (induction roots arbitrary: p0 w)
  case Nil
  then show ?case by simp
next
  case (Cons r roots)
  show ?case
  proof (cases "falsy_path p0")
    case False
    then show ?thesis using Cons.prems by (simp del: lookup_loop.simps add: lookup_loop_Cons)
  next
    case True
    show ?thesis
    proof (cases "resolve (cwd E) [r, Some f]")
      case (Inl e')
      then have "e' = e"
        using Cons.prems True by (simp del: lookup_loop.simps add: lookup_loop_Cons)
      then show ?thesis
        using resolve_error[OF Inl] by auto
    next
      case (Inr loc)
      let ?q = "find (is_regular_file E) (candidate_paths E (this_ext this) f r)"
      have "lookup_loop E this f roots ?q
              (w\<lparr>stat_log := stat_log w @ probed_paths E (this_ext this) f r\<rparr>) = (Inl e, w')"
        using Cons.prems True Inr by (simp del: lookup_loop.simps add: lookup_loop_Cons)
      then have "e = TypeError ''The paths[i] argument must be of type string'' \<and>
                 None \<in> set roots"
        by (rule Cons.IH)
      then show ?thesis
        by simp
    qed
  qed
qed

lemma infer_extension_fields:
  assumes "infer_extension nm opts = Inr (this1, fileName)"
  shows "this_root this1 = opt_root opts \<and> this_name this1 = nm \<and>
         this_defaultEngine this1 = opt_defaultEngine opts"
  using assms
  by (auto simp: infer_extension_def Let_def split: if_splits option.splits list.splits)

lemma lookup_loop_all_miss:
  assumes "\<forall>r\<in>set rs. (\<exists>loc. resolve (cwd E) [r, Some f] = Inr loc) \<and>
             (\<forall>p\<in>set (candidate_paths E (this_ext this) f r). \<not> is_regular_file E p)"
  shows "lookup_loop E this f rs None w =
           (Inr None,
            w\<lparr>stat_log := stat_log w @
                 concat (map (candidate_paths E (this_ext this) f) rs)\<rparr>)"
  using assms
proof (induction rs arbitrary: w)
  case Nil
  then show ?case by simp
next
  case (Cons a rs)
  obtain loc where loc: "resolve (cwd E) [a, Some f] = Inr loc"
    using Cons.prems by auto
  have m: "\<forall>p\<in>set (candidate_paths E (this_ext this) f a). \<not> is_regular_file E p"
    using Cons.prems by simp
  have ih: "lookup_loop E this f rs None
              (w\<lparr>stat_log := stat_log w @ candidate_paths E (this_ext this) f a\<rparr>) =
            (Inr None,
             w\<lparr>stat_log := stat_log w @ candidate_paths E (this_ext this) f a @
                  concat (map (candidate_paths E (this_ext this) f) rs)\<rparr>)"
    using Cons.IH[of "w\<lparr>stat_log := stat_log w @ candidate_paths E (this_ext this) f a\<rparr>"]
      Cons.prems by simp
  show ?case
    using find_None_probed[OF m] ih
    by (simp del: lookup_loop.simps add: lookup_loop_Cons loc falsy_path_def)
qed

lemma constructor_lookup_error:
  assumes "infer_extension nm opts = Inr (this1, fileName)"
    and "opt_engines opts = Some r"
    and "load_engine E (this_ext this1) r w = (Inr (), w1)"
    and "View_lookup E (this1\<lparr>this_engine := get_prop (heap w1 r) (this_ext this1)\<rparr>) fileName w1
           = (Inl err, w2)"
  shows "View_constructor E nm (Some opts) w = (Inl err, w2)"
  using assms by (simp add: View_constructor_def Let_def)

lemma extname_empty: "extname [] = []"
  by code_simp

lemma infer_extension_with_ext:
  assumes "extname nm \<noteq> []"
  shows "infer_extension nm opts =
           Inr (\<lparr>this_defaultEngine = opt_defaultEngine opts, this_ext = extname nm,
                 this_name = nm, this_root = opt_root opts,
                 this_engine = JUndefined, this_path = None\<rparr>, nm)"
  using assms by (simp add: infer_extension_def Let_def)

lemma resolve_absolute:
  "resolve c [r, Some (CHR ''/'' # rest)] =
     Inr (CHR ''/'' # normalizeString ((CHR ''/'' # rest) @ ''/'') False)"
  by (simp add: resolve_def)

lemma resolve_undefined_relative:
  assumes "nm = [] \<or> hd nm \<noteq> CHR ''/''"
  shows "resolve c [None, Some nm] =
           Inl (TypeError ''The paths[i] argument must be of type string'')"
  using assms by (auto simp: resolve_def)

lemma candidate_paths_absolute:
  "candidate_paths E e (CHR ''/'' # rest) r =
     [exact_path (CHR ''/'' # normalizeString ((CHR ''/'' # rest) @ ''/'') False),
      index_path e (CHR ''/'' # normalizeString ((CHR ''/'' # rest) @ ''/'') False)]"
  by (simp add: candidate_paths_def resolve_absolute)

lemma lookup_loop_absolute:
  assumes "fileName = CHR ''/'' # rest"
  shows "fst (lookup_loop E this fileName roots p0 w) =
           Inr (if \<not> falsy_path p0 \<or> roots = [] then p0
                else find (is_regular_file E) (candidate_paths E (this_ext this) fileName None))"
proof (induction roots arbitrary: p0 w)
  case Nil
  then show ?case by simp
next
  case (Cons r roots)
  have rs: "resolve (cwd E) [r, Some fileName] =
              Inr (CHR ''/'' # normalizeString (fileName @ ''/'') False)"
    unfolding assms by (rule resolve_absolute)
  have cp: "candidate_paths E (this_ext this) fileName r =
            candidate_paths E (this_ext this) fileName None"
    unfolding assms by (simp add: candidate_paths_absolute)
  show ?case
  proof (cases "falsy_path p0")
    case False
    then show ?thesis
      by (simp add: lookup_loop_Cons del: lookup_loop.simps(2))
  next
    case True
    let ?q = "find (is_regular_file E) (candidate_paths E (this_ext this) fileName None)"
    have "fst (lookup_loop E this fileName (r # roots) p0 w) =
          fst (lookup_loop E this fileName roots ?q
                 (w\<lparr>stat_log := stat_log w @ probed_paths E (this_ext this) fileName r\<rparr>))"
      using True by (simp add: lookup_loop_Cons rs cp del: lookup_loop.simps(2))
    also have "\<dots> = Inr (if \<not> falsy_path ?q \<or> roots = [] then ?q else ?q)"
      by (rule Cons.IH)
    finally show ?thesis
      using True by simp
  qed
qed

lemma extname_loop_inv:
  "n \<le> length path \<Longrightarrow> extname_inv path n st \<Longrightarrow> extname_inv path 0 (extname_loop path n st)"
proof (induction n arbitrary: st)
  case 0
  then show ?case by simp
next
  case (Suc i)
  have i: "i \<le> length path" using Suc.prems(1) by simp
  show ?case
  proof (cases "path ! i = CHR ''/''")
    case True
    show ?thesis
    proof (cases "en_matchedSlash st")
      case True
      have "extname_inv path i st"
        using Suc.prems(2) by (auto simp: extname_inv_def)
      then show ?thesis
        using \<open>path ! i = CHR ''/''\<close> True Suc.IH[OF i] by simp
    next
      case False
      then show ?thesis
        using \<open>path ! i = CHR ''/''\<close> Suc.prems(2) by (auto simp: extname_inv_def)
    qed
  next
    case False
    let ?st1 = "if en_end st = -1
                then st\<lparr>en_matchedSlash := False, en_end := int i + 1\<rparr> else st"
    let ?st2 = "if path ! i = CHR ''.'' then
                  (if en_startDot ?st1 = -1 then ?st1\<lparr>en_startDot := int i\<rparr>
                   else if en_preDotState ?st1 \<noteq> 1 then ?st1\<lparr>en_preDotState := 1\<rparr>
                   else ?st1)
                else if en_startDot ?st1 \<noteq> -1 then ?st1\<lparr>en_preDotState := -1\<rparr>
                else ?st1"
    have "extname_inv path i ?st2"
      using Suc.prems by (auto simp: extname_inv_def)
    then have "extname_inv path 0 (extname_loop path i ?st2)"
      by (rule Suc.IH[OF i])
    then show ?thesis
      using False by (simp add: Let_def)
  qed
qed

lemma extname_leading_dot:
  assumes "extname path \<noteq> []"
  shows "hd (extname path) = CHR ''.''"
proof -
  let ?init = "\<lparr>en_startDot = -1, en_startPart = 0, en_end = -1,
               en_matchedSlash = True, en_preDotState = 0\<rparr>"
  let ?st = "extname_loop path (length path) ?init"
  have "extname_inv path (length path) ?init"
    by (simp add: extname_inv_def)
  then have inv: "extname_inv path 0 ?st"
    by (rule extname_loop_inv[OF le_refl])
  have nz: "en_startDot ?st \<noteq> -1 \<and> en_end ?st \<noteq> -1"
    using assms by (auto simp: extname_def Let_def split: if_splits)
  have e: "extname path = js_slice path (en_startDot ?st) (en_end ?st)"
    using assms by (auto simp: extname_def Let_def split: if_splits)
  from inv nz have b: "0 \<le> en_startDot ?st" "en_startDot ?st < en_end ?st"
    "en_end ?st \<le> int (length path)" "path ! nat (en_startDot ?st) = CHR ''.''"
    by (auto simp: extname_inv_def)
  have "js_slice path (en_startDot ?st) (en_end ?st) =
        take (nat (en_end ?st - en_startDot ?st)) (drop (nat (en_startDot ?st)) path)"
    using b by (simp add: js_slice_def Let_def min_def)
  moreover have "hd (take (nat (en_end ?st - en_startDot ?st)) (drop (nat (en_startDot ?st)) path))
        = path ! nat (en_startDot ?st)"
    using b by (simp add: hd_drop_conv_nth)
  ultimately show ?thesis
    using e b by simp
qed

lemma infer_extension_leading_dot:
  assumes "infer_extension nm opts = Inr (this1, fileName)"
  shows "this_ext this1 \<noteq> [] \<and> hd (this_ext this1) = CHR ''.''"
proof (cases "extname nm = []")
  case True
  then show ?thesis
    using assms
    by (auto simp: infer_extension_def Let_def split: option.splits list.splits if_splits)
next
  case False
  then show ?thesis
    using assms extname_leading_dot[OF False]
    by (auto simp: infer_extension_def Let_def)
qed

section \<open>The properties\<close>

text \<open>C1: the roots are tried in order. When no candidate path of the roots before \<open>ri\<close> is a
  regular file and \<open>p\<close> is the first candidate of \<open>ri\<close> that is one, \<open>lookup\<close> returns \<open>p\<close>, and
  the paths given to \<open>statSync\<close> are those of the roots before \<open>ri\<close> and those of \<open>ri\<close> up to
  \<open>p\<close>: no path of a later root is probed.\<close>

theorem lookup_first_matching_root:
  assumes "this_root this = RootArray (pre @ ri # post)"
    and "\<forall>r\<in>set pre. \<forall>p\<in>set (candidate_paths E (this_ext this) fileName (Some r)).
           \<not> is_regular_file E p"
    and "find (is_regular_file E) (candidate_paths E (this_ext this) fileName (Some ri)) = Some p"
  shows "View_lookup E this fileName w =
           (Inr (Some p),
            w\<lparr>stat_log := stat_log w @
                 concat (map (\<lambda>r. candidate_paths E (this_ext this) fileName (Some r)) pre) @
                 probed_paths E (this_ext this) fileName (Some ri)\<rparr>)"
proof -
  obtain loc where loc: "resolve (cwd E) [Some ri, Some fileName] = Inr loc"
    using resolve_strings by blast
  have "p \<in> set (candidate_paths E (this_ext this) fileName (Some ri))"
    using assms(3) by (auto simp: find_Some_iff)
  then have ne: "\<not> falsy_path (Some p)"
    using candidate_nonempty by (auto simp: falsy_path_def)
  show ?thesis
    using lookup_loop_misses[OF assms(2), of "Some ri # map Some post" w]
    by (simp add: View_lookup_def concat_root_def assms(1) lookup_loop_step[OF loc] assms(3)
        lookup_loop_found[OF ne] del: lookup_loop.simps)
qed

theorem lookup_first_matching_root_witness:
  "View_lookup example_env (example_view (RootArray [''/a'', ''/views'', ''/b'']))
     ''index.html'' example_world =
   (Inr (Some ''/views/index.html''),
    example_world\<lparr>stat_log := [''/a/index.html'', ''/a/index/index.html'',
                                ''/views/index.html'']\<rparr>)"
proof -
  let ?v = "example_view (RootArray [''/a'', ''/views'', ''/b''])"
  have ext: "this_ext ?v = ''.html''"
    by (simp add: example_view_def)
  have h1: "this_root ?v = RootArray ([''/a''] @ ''/views'' # [''/b''])"
    by (simp add: example_view_def)
  have h2: "\<forall>r\<in>set [''/a'']. \<forall>p\<in>set (candidate_paths example_env (this_ext ?v)
              ''index.html'' (Some r)). \<not> is_regular_file example_env p"
    by (simp add: ext example_candidates_a example_regular)
  have h3: "find (is_regular_file example_env)
              (candidate_paths example_env (this_ext ?v) ''index.html'' (Some ''/views''))
            = Some ''/views/index.html''"
    by (simp add: ext example_candidates_views example_regular)
  have log: "stat_log example_world = []"
    by (simp add: example_world_def)
  show ?thesis
    using lookup_first_matching_root[OF h1 h2 h3, of example_world]
    by (simp add: ext example_candidates_a example_candidates_views example_regular
        probed_paths_def log)
qed

text \<open>C3: a name without extension and a configuration without default engine make the
  constructor throw the error of line 44, and the world is unchanged: no \<open>statSync\<close>, no
  \<open>require\<close>, no write to a registry happened before the failure.\<close>

theorem constructor_no_extension_no_default_engine:
  assumes "extname nm = []"
    and "(case options of None \<Rightarrow> None | Some ob \<Rightarrow> opt_defaultEngine ob) \<in> {None, Some []}"
  shows "View_constructor E nm options w =
           (Inl (Error ''No default engine was specified and no extension was provided.''), w)"
  using assms
  by (auto simp: View_constructor_def infer_extension_def empty_options_def Let_def
      split: option.splits)

theorem constructor_no_extension_no_default_engine_witness:
  "View_constructor example_env ''index'' None example_world =
     (Inl (Error ''No default engine was specified and no extension was provided.''),
      example_world)"
proof -
  have h2: "(case None :: options option of None \<Rightarrow> None | Some ob \<Rightarrow> opt_defaultEngine ob)
              \<in> {None, Some []}"
    by simp
  show ?thesis
    using constructor_no_extension_no_default_engine[OF extname_index h2] by simp
qed

text \<open>C2: within one root \<open>View.resolve\<close> probes the exact file first and the directory
  index second. When the exact file is a regular file it is returned after that one probe,
  whatever the index is; otherwise both paths are probed in that order and the index is
  returned when it is a regular file. For the name \<open>index\<close>, default engine \<open>html\<close> and root
  \<open>/views\<close> (the engine bound or loadable) the constructed view has the path
  \<open>/views/index.html\<close> when that is a regular file, and \<open>/views/index/index.html\<close> when only
  that one is.\<close>

theorem resolve_exact_before_index:
  "(is_regular_file E (join [dir, file]) \<longrightarrow>
      View_resolve E this dir file w =
        (Some (join [dir, file]), w\<lparr>stat_log := stat_log w @ [join [dir, file]]\<rparr>)) \<and>
   (\<not> is_regular_file E (join [dir, file]) \<longrightarrow>
      View_resolve E this dir file w =
        ((if is_regular_file E
               (join [dir, basename file (Some (this_ext this)), ''index'' @ this_ext this])
          then Some (join [dir, basename file (Some (this_ext this)), ''index'' @ this_ext this])
          else None),
         w\<lparr>stat_log := stat_log w @
              [join [dir, file],
               join [dir, basename file (Some (this_ext this)), ''index'' @ this_ext this]]\<rparr>)) \<and>
   (fst (load_engine E ''.html'' r w) = Inr () \<longrightarrow>
      (is_regular_file E ''/views/index.html'' \<longrightarrow>
         (\<exists>v w'. View_constructor E ''index''
                    (Some \<lparr>opt_defaultEngine = Some ''html'', opt_engines = Some r,
                           opt_root = RootString ''/views''\<rparr>) w = (Inr v, w') \<and>
                  this_path v = Some ''/views/index.html'')) \<and>
      (\<not> is_regular_file E ''/views/index.html'' \<and>
       is_regular_file E ''/views/index/index.html'' \<longrightarrow>
         (\<exists>v w'. View_constructor E ''index''
                    (Some \<lparr>opt_defaultEngine = Some ''html'', opt_engines = Some r,
                           opt_root = RootString ''/views''\<rparr>) w = (Inr v, w') \<and>
                  this_path v = Some ''/views/index/index.html'')))"
proof (intro conjI impI)
  show "View_resolve E this dir file w =
        (Some (join [dir, file]), w\<lparr>stat_log := stat_log w @ [join [dir, file]]\<rparr>)"
    if "is_regular_file E (join [dir, file])"
    using that by (simp add: View_resolve_eq Let_def)
next
  show "View_resolve E this dir file w =
        ((if is_regular_file E
               (join [dir, basename file (Some (this_ext this)), ''index'' @ this_ext this])
          then Some (join [dir, basename file (Some (this_ext this)), ''index'' @ this_ext this])
          else None),
         w\<lparr>stat_log := stat_log w @
              [join [dir, file],
               join [dir, basename file (Some (this_ext this)), ''index'' @ this_ext this]]\<rparr>)"
    if "\<not> is_regular_file E (join [dir, file])"
    using that by (simp add: View_resolve_eq Let_def)
next
  let ?opts = "\<lparr>opt_defaultEngine = Some ''html'', opt_engines = Some r,
                 opt_root = RootString ''/views''\<rparr>"
  let ?this1 = "\<lparr>this_defaultEngine = Some ''html'', this_ext = ''.html'', this_name = ''index'',
           this_root = RootString ''/views'', this_engine = JUndefined, this_path = None\<rparr>"
  assume "fst (load_engine E ''.html'' r w) = Inr ()"
  then obtain w1 where le: "load_engine E (this_ext ?this1) r w = (Inr (), w1)"
    by (cases "load_engine E ''.html'' r w") simp
  let ?this2 = "?this1\<lparr>this_engine := get_prop (heap w1 r) (this_ext ?this1)\<rparr>"
  have lk: "View_lookup E ?this2 ''index.html'' w1 =
          (Inr (find (is_regular_file E) [''/views/index.html'', ''/views/index/index.html'']),
            w1\<lparr>stat_log := stat_log w1 @ probed_paths E ''.html'' ''index.html'' (Some ''/views'')\<rparr>)"
    using lookup_single_root[of ?this2 "''/views''" E "''index.html''" w1]
    by (simp add: candidates_views_index)
  have c: "View_constructor E ''index'' (Some ?opts) w =
          (Inr (?this2\<lparr>this_path := find (is_regular_file E) [''/views/index.html'', ''/views/index/index.html'']\<rparr>),
            w1\<lparr>stat_log := stat_log w1 @ probed_paths E ''.html'' ''index.html'' (Some ''/views'')\<rparr>)"
    using constructor_success[OF infer_index_html _ le lk] by simp
  show "\<exists>v w'. View_constructor E ''index'' (Some ?opts) w = (Inr v, w') \<and>
                  this_path v = Some ''/views/index.html''"
    if "is_regular_file E ''/views/index.html''"
    using that c by simp
  show "\<exists>v w'. View_constructor E ''index'' (Some ?opts) w = (Inr v, w') \<and>
                  this_path v = Some ''/views/index/index.html''"
    if "\<not> is_regular_file E ''/views/index.html'' \<and> is_regular_file E ''/views/index/index.html''"
    using that c by simp
qed

theorem resolve_exact_before_index_witness:
  "View_resolve example_env (example_view (RootString ''/views'')) ''/views'' ''index.html''
     example_world =
     (Some ''/views/index.html'', example_world\<lparr>stat_log := [''/views/index.html'']\<rparr>) \<and>
   View_resolve example_env_index (example_view (RootString ''/views'')) ''/views''
     ''index.html'' example_world =
     (Some ''/views/index/index.html'',
      example_world\<lparr>stat_log := [''/views/index.html'', ''/views/index/index.html'']\<rparr>) \<and>
   (\<exists>v w'. View_constructor example_env ''index''
              (Some (example_options (RootString ''/views''))) example_world = (Inr v, w') \<and>
            this_path v = Some ''/views/index.html'') \<and>
   (\<exists>v w'. View_constructor example_env_index ''index''
              (Some (example_options (RootString ''/views''))) example_world = (Inr v, w') \<and>
            this_path v = Some ''/views/index/index.html'')"
proof -
  have j1: "join [''/views'', ''index.html''] = ''/views/index.html''"
    by code_simp
  have j2: "join [''/views'', basename ''index.html'' (Some ''.html''), ''index.html''] =
              ''/views/index/index.html''"
    by code_simp
  have le1: "fst (load_engine example_env ''.html'' 0 example_world) = Inr ()"
    by (simp add: load_engine_def example_env_def example_world_def example_require_def
        get_prop_def Let_def)
  have le2: "fst (load_engine example_env_index ''.html'' 0 example_world) = Inr ()"
    by (simp add: load_engine_def example_env_index_def example_world_def example_require_def
        get_prop_def Let_def)
  have r2: "\<not> is_regular_file example_env_index ''/views/index.html''"
    "is_regular_file example_env_index ''/views/index/index.html''"
    by (simp_all add: is_regular_file_def example_env_index_def)
  have log: "stat_log example_world = []"
    by (simp add: example_world_def)
  have ext: "this_ext (example_view (RootString ''/views'')) = ''.html''"
    by (simp add: example_view_def)
  show ?thesis
    using resolve_exact_before_index[of example_env "''/views''" "''index.html''"
        "example_view (RootString ''/views'')" example_world 0]
      resolve_exact_before_index[of example_env_index "''/views''" "''index.html''"
        "example_view (RootString ''/views'')" example_world 0]
    by (simp add: j1 j2 le1 le2 r2 example_regular log ext example_options_def)
qed

text \<open>C4: the extension starts with a dot. When the registry entry of the extension is
  unbound (falsy), the constructor calls \<open>require\<close> once, with the extension minus that
  dot. A loaded value that is not a function makes the constructor throw the error of line
  65, which names the module; a loaded function is written into the registry object under
  the extension, where the world after the construction holds it, and it is the engine of
  the constructed view.\<close>

theorem constructor_loads_unbound_engine:
  assumes "infer_extension nm opts = Inr (this1, fileName)"
    and "opt_engines opts = Some r"
    and "\<not> truthy (get_prop (heap w r) (this_ext this1))"
  shows "this_ext this1 = CHR ''.'' # drop 1 (this_ext this1) \<and>
         require_log (snd (View_constructor E nm (Some opts) w)) =
           require_log w @ [drop 1 (this_ext this1)] \<and>
         (\<forall>fn. require_express E (drop 1 (this_ext this1)) = Inr fn \<and> \<not> is_function fn \<longrightarrow>
            View_constructor E nm (Some opts) w =
              (Inl (Error (''Module '' @ drop 1 (this_ext this1) @
                           '' does not provide a view engine.'')),
               w\<lparr>require_log := require_log w @ [drop 1 (this_ext this1)]\<rparr>)) \<and>
         (\<forall>fn. require_express E (drop 1 (this_ext this1)) = Inr fn \<and> is_function fn \<longrightarrow>
            heap (snd (View_constructor E nm (Some opts) w)) =
              (heap w)(r := (heap w r)(this_ext this1 \<mapsto> fn)) \<and>
            (\<forall>v w'. View_constructor E nm (Some opts) w = (Inr v, w') \<longrightarrow> this_engine v = fn))"
proof (intro conjI allI impI)
  show "this_ext this1 = CHR ''.'' # drop 1 (this_ext this1)"
    using infer_extension_leading_dot[OF assms(1)] by (cases "this_ext this1") auto
next
  show "require_log (snd (View_constructor E nm (Some opts) w)) =
           require_log w @ [drop 1 (this_ext this1)]"
    by (simp add: constructor_world[OF assms(1,2)] load_engine_unbound[OF assms(3)]
        split: sum.split)
next
  fix fn
  assume "require_express E (drop 1 (this_ext this1)) = Inr fn \<and> \<not> is_function fn"
  then show "View_constructor E nm (Some opts) w =
              (Inl (Error (''Module '' @ drop 1 (this_ext this1) @
                           '' does not provide a view engine.'')),
               w\<lparr>require_log := require_log w @ [drop 1 (this_ext this1)]\<rparr>)"
    by (simp add: constructor_unfold[OF assms(1,2)] load_engine_unbound[OF assms(3)])
next
  fix fn
  assume a: "require_express E (drop 1 (this_ext this1)) = Inr fn \<and> is_function fn"
  then show "heap (snd (View_constructor E nm (Some opts) w)) =
              (heap w)(r := (heap w r)(this_ext this1 \<mapsto> fn))"
    by (simp add: constructor_world[OF assms(1,2)] load_engine_unbound[OF assms(3)])
next
  fix fn v w'
  assume a: "require_express E (drop 1 (this_ext this1)) = Inr fn \<and> is_function fn"
    and c: "View_constructor E nm (Some opts) w = (Inr v, w')"
  show "this_engine v = fn"
    using c a
    by (auto simp: constructor_unfold[OF assms(1,2)] load_engine_unbound[OF assms(3)]
        get_prop_def split: prod.splits sum.splits)
qed

theorem constructor_loads_unbound_engine_witness:
  "require_log (snd (View_constructor example_env ''index''
                       (Some (example_options (RootString ''/views''))) example_world)) =
     [''html''] \<and>
   heap (snd (View_constructor example_env ''index''
                (Some (example_options (RootString ''/views''))) example_world)) 0 ''.html'' =
     Some (JFunction 7) \<and>
   View_constructor example_env ''notes.txt''
     (Some (example_options (RootString ''/views''))) example_world =
     (Inl (Error ''Module txt does not provide a view engine.''),
      example_world\<lparr>require_log := [''txt'']\<rparr>)"
proof -
  have e: "opt_engines (example_options (RootString ''/views'')) = Some 0"
    by (simp add: example_options_def)
  have u1: "\<not> truthy (get_prop (heap example_world 0) (this_ext
              \<lparr>this_defaultEngine = Some ''html'', this_ext = ''.html'', this_name = ''index'',
               this_root = RootString ''/views'', this_engine = JUndefined, this_path = None\<rparr>))"
    by (simp add: example_world_def get_prop_def)
  have u2: "\<not> truthy (get_prop (heap example_world 0) (this_ext
              \<lparr>this_defaultEngine = Some ''html'', this_ext = ''.txt'', this_name = ''notes.txt'',
               this_root = RootString ''/views'', this_engine = JUndefined, this_path = None\<rparr>))"
    by (simp add: example_world_def get_prop_def)
  have rq: "require_express example_env ''html'' = Inr (JFunction 7)"
    "require_express example_env ''txt'' = Inr (JObject 3)"
    by (simp_all add: example_env_def example_require_def)
  have lg: "require_log example_world = []"
    by (simp add: example_world_def)
  show ?thesis
    using constructor_loads_unbound_engine[OF infer_index_example e u1, of example_env]
      constructor_loads_unbound_engine[OF infer_notes_txt e u2, of example_env]
    by (simp add: rq lg)
qed

text \<open>C5 (as amended): two views constructed one after the other with the same registry
  object and the same extension. The first construction calls \<open>require\<close> once when the
  registry entry was unbound and not at all when it was already bound; the second
  construction never calls \<open>require\<close> and leaves the registry as it is; both views hold the
  same engine value, which is the registry entry.\<close>

theorem sequential_constructions_share_engine:
  assumes "View_constructor E nm1 (Some opts1) w0 = (Inr v1, w1)"
    and "View_constructor E nm2 (Some opts2) w1 = (Inr v2, w2)"
    and "opt_engines opts1 = Some r"
    and "opt_engines opts2 = Some r"
    and "this_ext v2 = this_ext v1"
  shows "require_log w1 =
           require_log w0 @
             (if truthy (get_prop (heap w0 r) (this_ext v1)) then [] else [drop 1 (this_ext v1)]) \<and>
         require_log w2 = require_log w1 \<and>
         heap w2 = heap w1 \<and>
         this_engine v2 = this_engine v1 \<and>
         this_engine v1 = get_prop (heap w2 r) (this_ext v1) \<and>
         truthy (this_engine v1)"
proof -
  obtain t1 f1 u1 where
    i1: "infer_extension nm1 opts1 = Inr (t1, f1)" and
    l1: "load_engine E (this_ext t1) r w0 = (Inr (), u1)" and
    v1: "v1 = t1\<lparr>this_engine := get_prop (heap u1 r) (this_ext t1), this_path := this_path v1\<rparr>"
    using constructor_Inr_elim[OF assms(1,3)] by metis
  obtain t2 f2 u2 where
    i2: "infer_extension nm2 opts2 = Inr (t2, f2)" and
    l2: "load_engine E (this_ext t2) r w1 = (Inr (), u2)" and
    v2: "v2 = t2\<lparr>this_engine := get_prop (heap u2 r) (this_ext t2), this_path := this_path v2\<rparr>"
    using constructor_Inr_elim[OF assms(2,4)] by metis
  have e1: "this_ext v1 = this_ext t1"
    by (subst v1) simp
  have e2: "this_ext v2 = this_ext t2"
    by (subst v2) simp
  have g1: "this_engine v1 = get_prop (heap u1 r) (this_ext t1)"
    by (subst v1) simp
  have g2: "this_engine v2 = get_prop (heap u2 r) (this_ext t2)"
    by (subst v2) simp
  have w1: "heap w1 = heap u1 \<and> require_log w1 = require_log u1"
    using constructor_world[OF i1 assms(3), of E w0] assms(1) l1 by simp
  have w2: "heap w2 = heap u2 \<and> require_log w2 = require_log u2"
    using constructor_world[OF i2 assms(4), of E w1] assms(2) l2 by simp
  have t: "truthy (get_prop (heap w1 r) (this_ext t1))"
    using load_engine_success_truthy[OF l1] w1 by simp
  have same: "this_ext t2 = this_ext t1"
    using assms(5) e1 e2 by simp
  have u2: "u2 = w1"
    using l2 t by (simp add: same load_engine_bound)
  have log1: "require_log u1 =
           require_log w0 @
             (if truthy (get_prop (heap w0 r) (this_ext t1)) then [] else [drop 1 (this_ext t1)])"
  proof (cases "truthy (get_prop (heap w0 r) (this_ext t1))")
    case True
    then show ?thesis using l1 by (simp add: load_engine_bound)
  next
    case False
    then show ?thesis
      using l1 by (auto simp: load_engine_unbound split: sum.splits if_splits)
  qed
  show ?thesis
    using w1 w2 u2 t log1 by (simp add: e1 g1 g2 same)
qed

theorem sequential_constructions_share_engine_witness:
  "require_log
     (snd (View_constructor example_env ''index''
             (Some (example_options (RootString ''/views'')))
             (snd (View_constructor example_env ''index''
                     (Some (example_options (RootString ''/views''))) example_world)))) =
   [''html'']"
proof -
  let ?o = "example_options (RootString ''/views'')"
  let ?V = "\<lparr>this_defaultEngine = Some ''html'', this_ext = ''.html'', this_name = ''index'',
            this_root = RootString ''/views'', this_engine = JFunction 7,
            this_path = Some ''/views/index.html''\<rparr>"
  let ?c1 = "View_constructor example_env ''index'' (Some ?o) example_world"
  let ?c2 = "View_constructor example_env ''index'' (Some ?o) (snd ?c1)"
  have f1: "fst ?c1 = Inr ?V"
    by code_simp
  have f2: "fst ?c2 = Inr ?V"
    by code_simp
  have a1: "?c1 = (Inr ?V, snd ?c1)"
    using f1 by (metis prod.collapse)
  have a2: "?c2 = (Inr ?V, snd ?c2)"
    using f2 by (metis prod.collapse)
  have e: "opt_engines ?o = Some 0"
    by (simp add: example_options_def)
  show ?thesis
    using sequential_constructions_share_engine[OF a1 a2 e e]
    by (simp add: example_world_def get_prop_def)
qed

text \<open>The claim as stated fails when the registry already binds the extension before the
  first construction: both constructions succeed and \<open>require\<close> is never called.\<close>

theorem provider_loaded_once_counterexample:
  "fst (View_constructor example_env ''index''
          (Some (example_options (RootString ''/views''))) example_world_bound) =
     Inr \<lparr>this_defaultEngine = Some ''html'', this_ext = ''.html'', this_name = ''index'',
          this_root = RootString ''/views'', this_engine = JFunction 7,
          this_path = Some ''/views/index.html''\<rparr> \<and>
   fst (View_constructor example_env ''index''
          (Some (example_options (RootString ''/views'')))
          (snd (View_constructor example_env ''index''
                  (Some (example_options (RootString ''/views''))) example_world_bound))) =
     Inr \<lparr>this_defaultEngine = Some ''html'', this_ext = ''.html'', this_name = ''index'',
          this_root = RootString ''/views'', this_engine = JFunction 7,
          this_path = Some ''/views/index.html''\<rparr> \<and>
   require_log example_world_bound = [] \<and>
   require_log
     (snd (View_constructor example_env ''index''
             (Some (example_options (RootString ''/views'')))
             (snd (View_constructor example_env ''index''
                     (Some (example_options (RootString ''/views''))) example_world_bound)))) = []"
  by code_simp

text \<open>C8: for a name without extension and a non-empty default engine \<open>d\<close>, the extension is
  \<open>d\<close> itself when \<open>d\<close> starts with a dot and \<open>d\<close> with a dot in front otherwise; the file
  name handed to \<open>lookup\<close> is the name followed by that extension, and the field \<open>name\<close> of
  the view is the name as given.\<close>

theorem default_engine_extension:
  assumes "extname nm = []"
    and "opt_defaultEngine opts = Some d"
    and "d \<noteq> []"
  shows "infer_extension nm opts =
           Inr (\<lparr>this_defaultEngine = Some d,
                 this_ext = (if hd d = CHR ''.'' then d else CHR ''.'' # d),
                 this_name = nm, this_root = opt_root opts,
                 this_engine = JUndefined, this_path = None\<rparr>,
                nm @ (if hd d = CHR ''.'' then d else CHR ''.'' # d)) \<and>
         (\<forall>E w v w' r.
            View_constructor E nm (Some opts) w = (Inr v, w') \<and> opt_engines opts = Some r \<longrightarrow>
              this_ext v = (if hd d = CHR ''.'' then d else CHR ''.'' # d) \<and>
              this_name v = nm \<and>
              View_lookup E (v\<lparr>this_path := None\<rparr>)
                (nm @ (if hd d = CHR ''.'' then d else CHR ''.'' # d))
                (snd (load_engine E (if hd d = CHR ''.'' then d else CHR ''.'' # d) r w)) =
                (Inr (this_path v), w'))"
proof -
  let ?e = "if hd d = CHR ''.'' then d else CHR ''.'' # d"
  let ?t = "\<lparr>this_defaultEngine = Some d, this_ext = ?e, this_name = nm,
             this_root = opt_root opts, this_engine = JUndefined, this_path = None\<rparr>"
  have inf: "infer_extension nm opts = Inr (?t, nm @ ?e)"
    using assms by (cases d) (simp_all add: infer_extension_def Let_def)
  have "this_ext v = ?e \<and> this_name v = nm \<and>
        View_lookup E (v\<lparr>this_path := None\<rparr>) (nm @ ?e) (snd (load_engine E ?e r w)) =
          (Inr (this_path v), w')"
    if c: "View_constructor E nm (Some opts) w = (Inr v, w')" and r: "opt_engines opts = Some r"
    for E w v w' r
  proof -
    obtain t1 f1 u1 where
      i1: "infer_extension nm opts = Inr (t1, f1)" and
      l1: "load_engine E (this_ext t1) r w = (Inr (), u1)" and
      k1: "View_lookup E (t1\<lparr>this_engine := get_prop (heap u1 r) (this_ext t1)\<rparr>) f1 u1 =
             (Inr (this_path v), w')" and
      v1: "v = t1\<lparr>this_engine := get_prop (heap u1 r) (this_ext t1), this_path := this_path v\<rparr>"
      using constructor_Inr_elim[OF c r] by metis
    have t1: "t1 = ?t" and f1: "f1 = nm @ ?e"
      using i1 inf by simp_all
    have vv: "v\<lparr>this_path := None\<rparr> = t1\<lparr>this_engine := get_prop (heap u1 r) (this_ext t1)\<rparr>"
      by (subst v1) (simp add: t1)
    have "this_ext v = ?e \<and> this_name v = nm"
      by (subst v1, subst v1) (simp add: t1)
    then show ?thesis
      using k1 l1 vv by (simp add: t1 f1)
  qed
  then show ?thesis
    using inf by blast
qed

theorem default_engine_extension_witness:
  "infer_extension ''index'' (example_options (RootString ''/views'')) =
     Inr (\<lparr>this_defaultEngine = Some ''html'', this_ext = ''.html'', this_name = ''index'',
           this_root = RootString ''/views'', this_engine = JUndefined, this_path = None\<rparr>,
          ''index.html'') \<and>
   infer_extension ''index''
     \<lparr>opt_defaultEngine = Some ''.ejs'', opt_engines = Some 0, opt_root = RootUndefined\<rparr> =
     Inr (\<lparr>this_defaultEngine = Some ''.ejs'', this_ext = ''.ejs'', this_name = ''index'',
           this_root = RootUndefined, this_engine = JUndefined, this_path = None\<rparr>,
          ''index.ejs'') \<and>
   fst (View_lookup example_env
          \<lparr>this_defaultEngine = Some ''html'', this_ext = ''.html'', this_name = ''index'',
           this_root = RootString ''/views'', this_engine = JFunction 7, this_path = None\<rparr>
          ''index.html''
          (snd (load_engine example_env ''.html'' 0 example_world))) =
     Inr (Some ''/views/index.html'')"
proof -
  let ?o = "example_options (RootString ''/views'')"
  let ?o2 = "\<lparr>opt_defaultEngine = Some ''.ejs'', opt_engines = Some 0,
              opt_root = RootUndefined\<rparr>"
  let ?V = "\<lparr>this_defaultEngine = Some ''html'', this_ext = ''.html'', this_name = ''index'',
            this_root = RootString ''/views'', this_engine = JFunction 7,
            this_path = Some ''/views/index.html''\<rparr>"
  let ?c1 = "View_constructor example_env ''index'' (Some ?o) example_world"
  have d1: "opt_defaultEngine ?o = Some ''html''" and e1: "opt_engines ?o = Some 0"
    and r1: "opt_root ?o = RootString ''/views''"
    by (simp_all add: example_options_def)
  have d2: "opt_defaultEngine ?o2 = Some ''.ejs''"
    by simp
  have f1: "fst ?c1 = Inr ?V"
    by code_simp
  have a1: "?c1 = (Inr ?V, snd ?c1)"
    using f1 by (metis prod.collapse)
  have n1: "''html'' \<noteq> []" and n2: "''.ejs'' \<noteq> []"
    by simp_all
  show ?thesis
    using default_engine_extension[OF extname_index d1 n1]
      default_engine_extension[OF extname_index d2 n2] a1 e1
    by (simp add: r1) fastforce
qed

text \<open>C6: \<open>tryStat\<close> turns every error of \<open>statSync\<close> into \<open>undefined\<close>. A path returned by
  \<open>View.resolve\<close> or by \<open>lookup\<close> is one for which \<open>statSync\<close> returned a regular file, so a
  directory is never returned. Two file systems that agree on which paths are regular files
  give the same \<open>lookup\<close>, result and probes alike: an error of any kind, a directory and a
  missing path are not told apart. The only error \<open>lookup\<close> can return is the
  \<open>TypeError\<close> of \<open>path.resolve\<close> for a missing \<open>root\<close>; no error of \<open>statSync\<close> gets out.\<close>

theorem probe_regular_file_only:
  "(fst (View_tryStat E p w) = None \<longleftrightarrow> (\<exists>e. statSync E p = Inl e)) \<and>
   (fst (View_resolve E this dir file w) = Some p \<longrightarrow> statSync E p = Inr RegularFile) \<and>
   (fst (View_lookup E this f w) = Inr (Some p) \<longrightarrow> statSync E p = Inr RegularFile) \<and>
   (cwd E' = cwd E \<and> (\<forall>q. is_regular_file E' q = is_regular_file E q) \<longrightarrow>
      View_lookup E' this f w = View_lookup E this f w) \<and>
   (\<forall>e. fst (View_lookup E this f w) = Inl e \<longrightarrow>
      e = TypeError ''The paths[i] argument must be of type string'' \<and>
      this_root this = RootUndefined)"
proof -
  have c1: "fst (View_tryStat E p w) = None \<longleftrightarrow> (\<exists>e. statSync E p = Inl e)"
    by (simp add: View_tryStat_def split: sum.split)
  have c2: "statSync E p = Inr RegularFile"
    if "fst (View_resolve E this dir file w) = Some p"
    using that by (auto simp: View_resolve_eq Let_def is_regular_file_iff split: if_splits)
  have c3: "statSync E p = Inr RegularFile"
    if a: "fst (View_lookup E this f w) = Inr (Some p)"
  proof -
    obtain w' where
      "lookup_loop E this f (concat_root (this_root this)) None w = (Inr (Some p), w')"
      using a by (cases "View_lookup E this f w") (simp add: View_lookup_def)
    then have "is_regular_file E p"
      using lookup_loop_regular by fastforce
    then show ?thesis
      by (simp add: is_regular_file_iff)
  qed
  have c4: "View_lookup E' this f w = View_lookup E this f w"
    if "cwd E' = cwd E \<and> (\<forall>q. is_regular_file E' q = is_regular_file E q)"
    using that lookup_loop_cong[of E' E this f "concat_root (this_root this)" None w]
    by (simp add: View_lookup_def)
  have c5: "e = TypeError ''The paths[i] argument must be of type string'' \<and>
            this_root this = RootUndefined"
    if a: "fst (View_lookup E this f w) = Inl e" for e
  proof -
    obtain w' where
      "lookup_loop E this f (concat_root (this_root this)) None w = (Inl e, w')"
      using a by (cases "View_lookup E this f w") (simp add: View_lookup_def)
    then have "e = TypeError ''The paths[i] argument must be of type string'' \<and>
               None \<in> set (concat_root (this_root this))"
      by (rule lookup_loop_error)
    then show ?thesis
      by (cases "this_root this") (auto simp: concat_root_def)
  qed
  show ?thesis
    using c1 c2 c3 c4 c5 by blast
qed

theorem probe_regular_file_only_witness:
  "fst (View_tryStat example_env ''/secret/index.html'' example_world) = None \<and>
   statSync example_env ''/views/index.html'' = Inr RegularFile \<and>
   View_lookup example_env_enoent (example_view (RootArray [''/secret'', ''/views'']))
     ''index.html'' example_world =
   View_lookup example_env (example_view (RootArray [''/secret'', ''/views'']))
     ''index.html'' example_world \<and>
   this_root (example_view RootUndefined) = RootUndefined"
proof -
  let ?v = "example_view (RootArray [''/secret'', ''/views''])"
  have s1: "\<exists>e. statSync example_env ''/secret/index.html'' = Inl e"
    by (simp add: example_env_def example_statSync_def)
  have l1: "fst (View_lookup example_env ?v ''index.html'' example_world) =
              Inr (Some ''/views/index.html'')"
    by code_simp
  have cg: "cwd example_env_enoent = cwd example_env \<and>
            (\<forall>q. is_regular_file example_env_enoent q = is_regular_file example_env q)"
    by (simp add: is_regular_file_def example_env_enoent_def example_env_def
        example_statSync_def)
  have l2: "fst (View_lookup example_env (example_view RootUndefined) ''index.html''
                   example_world) =
              Inl (TypeError ''The paths[i] argument must be of type string'')"
    by code_simp
  note t1 = probe_regular_file_only[where E = example_env and p = "''/secret/index.html''"
      and w = example_world]
  note t2 = probe_regular_file_only[where E = example_env and p = "''/views/index.html''"
      and w = example_world and this = ?v and f = "''index.html''"
      and E' = example_env_enoent]
  note t3 = probe_regular_file_only[where E = example_env and w = example_world
      and this = "example_view RootUndefined" and f = "''index.html''"]
  have r1: "fst (View_tryStat example_env ''/secret/index.html'' example_world) = None"
    using t1[THEN conjunct1] s1 by (rule iffD2)
  have r2: "statSync example_env ''/views/index.html'' = Inr RegularFile"
    using t2[THEN conjunct2, THEN conjunct2, THEN conjunct1] l1 by (rule mp)
  have r3: "View_lookup example_env_enoent ?v ''index.html'' example_world =
            View_lookup example_env ?v ''index.html'' example_world"
    using t2[THEN conjunct2, THEN conjunct2, THEN conjunct2, THEN conjunct1] cg by (rule mp)
  have r4: "this_root (example_view RootUndefined) = RootUndefined"
    using t3[THEN conjunct2, THEN conjunct2, THEN conjunct2, THEN conjunct2, THEN spec,
        THEN mp, OF l2] by (rule conjunct2)
  show ?thesis
    using r1 r2 r3 r4 by (intro conjI)
qed

text \<open>C7: when the extension is determined, the registry is given, the engine is bound or
  loaded, every root resolves and none of the candidate paths of any root is a regular
  file, the constructor returns a view whose path is \<open>undefined\<close>; it does not throw. Its
  engine is the registry entry, and when that is a function \<open>f\<close>, \<open>render\<close> makes the call
  \<open>f(undefined, options, callback)\<close> and throws nothing itself.\<close>

theorem unresolved_view_renders_with_absent_path:
  assumes "infer_extension nm opts = Inr (this1, fileName)"
    and "opt_engines opts = Some r"
    and "load_engine E (this_ext this1) r w = (Inr (), w1)"
    and "\<forall>rt\<in>set (concat_root (opt_root opts)).
           (\<exists>loc. resolve (cwd E) [rt, Some fileName] = Inr loc) \<and>
           (\<forall>p\<in>set (candidate_paths E (this_ext this1) fileName rt). \<not> is_regular_file E p)"
  shows "\<exists>v w2. View_constructor E nm (Some opts) w = (Inr v, w2) \<and>
                this_path v = None \<and>
                this_engine v = get_prop (heap w1 r) (this_ext this1) \<and>
                (\<forall>f. this_engine v = JFunction f \<longrightarrow>
                   View_render v ropts callback = Inr (Invoke f None ropts callback))"
proof -
  let ?t = "this1\<lparr>this_engine := get_prop (heap w1 r) (this_ext this1)\<rparr>"
  have rt: "this_root ?t = opt_root opts"
    using infer_extension_fields[OF assms(1)] by simp
  have lk: "View_lookup E ?t fileName w1 =
          (Inr None,
           w1\<lparr>stat_log := stat_log w1 @
                concat (map (candidate_paths E (this_ext ?t) fileName)
                         (concat_root (opt_root opts)))\<rparr>)"
    unfolding View_lookup_def rt
    by (rule lookup_loop_all_miss) (use assms(4) in simp)
  show ?thesis
    using constructor_success[OF assms(1,2,3) lk]
    by (simp add: View_render_def)
qed

theorem unresolved_view_renders_with_absent_path_witness:
  "\<exists>v w2. View_constructor example_env ''missing''
             (Some (example_options (RootArray [''/a'', ''/b'']))) example_world = (Inr v, w2) \<and>
           this_path v = None \<and>
           this_engine v = JFunction 7 \<and>
           View_render v (0::nat) (1::nat) = Inr (Invoke 7 None 0 1)"
proof -
  let ?o = "example_options (RootArray [''/a'', ''/b''])"
  let ?t1 = "\<lparr>this_defaultEngine = Some ''html'', this_ext = ''.html'', this_name = ''missing'',
             this_root = RootArray [''/a'', ''/b''], this_engine = JUndefined,
             this_path = None\<rparr>"
  let ?w1 = "snd (load_engine example_env ''.html'' 0 example_world)"
  have ex: "extname ''missing'' = []"
    by code_simp
  have inf: "infer_extension ''missing'' ?o = Inr (?t1, ''missing.html'')"
    by (simp add: infer_extension_def example_options_def ex Let_def)
  have eng: "opt_engines ?o = Some 0"
    by (simp add: example_options_def)
  have "fst (load_engine example_env ''.html'' 0 example_world) = Inr ()"
    by (simp add: load_engine_def example_env_def example_world_def example_require_def
        get_prop_def Let_def)
  then have le: "load_engine example_env (this_ext ?t1) 0 example_world = (Inr (), ?w1)"
    by (simp add: prod_eq_iff)
  have ca: "candidate_paths example_env ''.html'' ''missing.html'' (Some ''/a'') =
              [''/a/missing.html'', ''/a/missing/index.html'']"
    by code_simp
  have cb: "candidate_paths example_env ''.html'' ''missing.html'' (Some ''/b'') =
              [''/b/missing.html'', ''/b/missing/index.html'']"
    by code_simp
  have nr: "\<not> is_regular_file example_env ''/a/missing.html''"
    "\<not> is_regular_file example_env ''/a/missing/index.html''"
    "\<not> is_regular_file example_env ''/b/missing.html''"
    "\<not> is_regular_file example_env ''/b/missing/index.html''"
    by (simp_all add: is_regular_file_def example_env_def example_statSync_def)
  have miss: "\<forall>rt\<in>set (concat_root (opt_root ?o)).
           (\<exists>loc. resolve (cwd example_env) [rt, Some ''missing.html''] = Inr loc) \<and>
           (\<forall>p\<in>set (candidate_paths example_env (this_ext ?t1) ''missing.html'' rt).
              \<not> is_regular_file example_env p)"
    by (simp add: example_options_def concat_root_def resolve_strings ca cb nr)
  have g: "get_prop (heap ?w1 0) ''.html'' = JFunction 7"
    by (simp add: load_engine_def example_env_def example_world_def example_require_def
        get_prop_def Let_def)
  show ?thesis
    using unresolved_view_renders_with_absent_path[OF inf eng le miss, of "0::nat" "1::nat"]
    by (simp add: g) blast
qed

text \<open>C9 (as amended): for a name with an extension, the constructor throws a \<open>TypeError\<close>
  at line 56 when the options have no \<open>engines\<close> (or there are no options). With \<open>engines\<close>
  given, the engine bound or loaded, and no \<open>root\<close>, it throws the \<open>TypeError\<close> of
  \<open>path.resolve\<close> inside \<open>lookup\<close> when the name is not absolute; for an absolute name
  \<open>path.resolve\<close> stops before it reads the missing root, and the constructor returns a
  view. Both errors are \<open>TypeError\<close>s, not the \<open>Error\<close>s of lines 44 and 65.\<close>

theorem constructor_missing_engines_or_root:
  assumes "extname nm \<noteq> []"
  shows "(opt_engines (case options of None \<Rightarrow> empty_options | Some ob \<Rightarrow> ob) = None \<longrightarrow>
            View_constructor E nm options w =
              (Inl (TypeError ''Cannot read properties of undefined''), w)) \<and>
         (\<forall>ob r w1.
            options = Some ob \<and> opt_engines ob = Some r \<and> opt_root ob = RootUndefined \<and>
            load_engine E (extname nm) r w = (Inr (), w1) \<longrightarrow>
              (if hd nm = CHR ''/''
               then \<exists>v w2. View_constructor E nm options w = (Inr v, w2)
               else View_constructor E nm options w =
                      (Inl (TypeError ''The paths[i] argument must be of type string''), w1)))"
proof -
  have ne: "nm \<noteq> []"
    using assms extname_empty by auto
  have c1: "View_constructor E nm options w =
              (Inl (TypeError ''Cannot read properties of undefined''), w)"
    if "opt_engines (case options of None \<Rightarrow> empty_options | Some ob \<Rightarrow> ob) = None"
    using that infer_extension_with_ext[OF assms]
    by (simp add: View_constructor_def Let_def)
  have c2: "if hd nm = CHR ''/''
            then \<exists>v w2. View_constructor E nm options w = (Inr v, w2)
            else View_constructor E nm options w =
                   (Inl (TypeError ''The paths[i] argument must be of type string''), w1)"
    if h: "options = Some ob \<and> opt_engines ob = Some r \<and> opt_root ob = RootUndefined \<and>
        load_engine E (extname nm) r w = (Inr (), w1)" for ob r w1
  proof -
    let ?t1 = "\<lparr>this_defaultEngine = opt_defaultEngine ob, this_ext = extname nm,
                 this_name = nm, this_root = opt_root ob,
                 this_engine = JUndefined, this_path = None\<rparr>"
    have inf: "infer_extension nm ob = Inr (?t1, nm)"
      by (rule infer_extension_with_ext[OF assms])
    have eng: "opt_engines ob = Some r" using h by simp
    have le: "load_engine E (this_ext ?t1) r w = (Inr (), w1)" using h by simp
    have root: "opt_root ob = RootUndefined" using h by simp
    have opt: "options = Some ob" using h by simp
    show ?thesis
    proof (cases "hd nm = CHR ''/''")
      case True
      then obtain rest where nm: "nm = CHR ''/'' # rest"
        using ne by (cases nm) auto
      have rs: "resolve (cwd E) [None, Some nm] =
                  Inr (CHR ''/'' # normalizeString (nm @ ''/'') False)"
        unfolding nm by (rule resolve_absolute)
      let ?t2 = "?t1\<lparr>this_engine := get_prop (heap w1 r) (this_ext ?t1)\<rparr>"
      have lk: "View_lookup E ?t2 nm w1 =
                  (Inr (find (is_regular_file E) (candidate_paths E (this_ext ?t2) nm None)),
                   w1\<lparr>stat_log := stat_log w1 @ probed_paths E (this_ext ?t2) nm None\<rparr>)"
        by (simp add: View_lookup_def concat_root_def root lookup_loop_Cons falsy_path_def rs
            del: lookup_loop.simps(2))
      show ?thesis
        using True constructor_success[OF inf eng le lk] by (simp add: opt)
    next
      case False
      then have rs: "resolve (cwd E) [None, Some nm] =
           Inl (TypeError ''The paths[i] argument must be of type string'')"
        by (simp add: resolve_undefined_relative)
      let ?t2 = "?t1\<lparr>this_engine := get_prop (heap w1 r) (this_ext ?t1)\<rparr>"
      have lk: "View_lookup E ?t2 nm w1 =
                  (Inl (TypeError ''The paths[i] argument must be of type string''), w1)"
        by (simp add: View_lookup_def concat_root_def root lookup_loop_Cons falsy_path_def rs
            del: lookup_loop.simps(2))
      show ?thesis
        using False constructor_lookup_error[OF inf eng le lk] by (simp add: opt)
    qed
  qed
  show ?thesis
    using c1 c2 by blast
qed

theorem constructor_missing_engines_or_root_witness:
  "View_constructor example_env ''index.html'' None example_world =
     (Inl (TypeError ''Cannot read properties of undefined''), example_world) \<and>
   View_constructor example_env ''index.html''
     (Some \<lparr>opt_defaultEngine = None, opt_engines = Some 0, opt_root = RootUndefined\<rparr>)
     example_world =
     (Inl (TypeError ''The paths[i] argument must be of type string''),
      snd (load_engine example_env ''.html'' 0 example_world)) \<and>
   (\<exists>v w2. View_constructor example_env ''/views/index.html''
              (Some \<lparr>opt_defaultEngine = None, opt_engines = Some 0,
                     opt_root = RootUndefined\<rparr>)
              example_world = (Inr v, w2))"
proof -
  let ?o = "\<lparr>opt_defaultEngine = None, opt_engines = Some 0, opt_root = RootUndefined\<rparr>"
  let ?w1 = "snd (load_engine example_env ''.html'' 0 example_world)"
  have e1: "extname ''index.html'' = ''.html''"
    by code_simp
  have e2: "extname ''/views/index.html'' = ''.html''"
    by code_simp
  have n1: "extname ''index.html'' \<noteq> []"
    by (simp add: e1)
  have n2: "extname ''/views/index.html'' \<noteq> []"
    by (simp add: e2)
  have "fst (load_engine example_env ''.html'' 0 example_world) = Inr ()"
    by (simp add: load_engine_def example_env_def example_world_def example_require_def
        get_prop_def Let_def)
  then have le: "load_engine example_env ''.html'' 0 example_world = (Inr (), ?w1)"
    by (simp add: prod_eq_iff)
  show ?thesis
    using constructor_missing_engines_or_root[OF n1, of None example_env example_world]
      constructor_missing_engines_or_root[OF n1, of "Some ?o" example_env example_world]
      constructor_missing_engines_or_root[OF n2, of "Some ?o" example_env example_world]
      le
    by (simp add: e1 e2 empty_options_def) blast
qed

text \<open>The claim as stated fails for an absolute name, where the constructor returns a view
  although \<open>root\<close> is missing, and for an extension whose module exports no function, where
  the error is the one of line 65 and \<open>lookup\<close> is never reached.\<close>

theorem constructor_missing_root_counterexample:
  "extname ''/views/index.html'' = ''.html'' \<and>
   fst (View_constructor example_env ''/views/index.html''
          (Some \<lparr>opt_defaultEngine = None, opt_engines = Some 0, opt_root = RootUndefined\<rparr>)
          example_world) =
     Inr \<lparr>this_defaultEngine = None, this_ext = ''.html'', this_name = ''/views/index.html'',
          this_root = RootUndefined, this_engine = JFunction 7,
          this_path = Some ''/views/index.html''\<rparr> \<and>
   extname ''notes.txt'' = ''.txt'' \<and>
   fst (View_constructor example_env ''notes.txt''
          (Some \<lparr>opt_defaultEngine = None, opt_engines = Some 0, opt_root = RootUndefined\<rparr>)
          example_world) =
     Inl (Error ''Module txt does not provide a view engine.'')"
  by code_simp

text \<open>C10 (as amended): for an absolute file name, \<open>path.resolve(root, fileName)\<close> is the
  normalised file name, whatever the root and the working directory are, so every root has
  the same two candidate paths; and two views with the same extension and at least one root
  each get the same result from \<open>lookup\<close>: the first regular file among those two paths.\<close>

theorem absolute_file_name_ignores_roots:
  assumes "fileName = CHR ''/'' # rest"
  shows "(\<forall>r c. resolve c [r, Some fileName] =
                   Inr (CHR ''/'' # normalizeString (fileName @ ''/'') False)) \<and>
         (\<forall>r r' E'. candidate_paths E e fileName r = candidate_paths E' e fileName r') \<and>
         (concat_root (this_root this) \<noteq> [] \<and> concat_root (this_root this') \<noteq> [] \<and>
          this_ext this' = this_ext this \<longrightarrow>
            fst (View_lookup E this fileName w) = fst (View_lookup E this' fileName w') \<and>
            fst (View_lookup E this fileName w) =
              Inr (find (is_regular_file E)
                     (candidate_paths E (this_ext this) fileName None)))"
proof -
  have c1: "resolve c [r, Some fileName] =
              Inr (CHR ''/'' # normalizeString (fileName @ ''/'') False)" for r c
    unfolding assms by (rule resolve_absolute)
  have c2: "candidate_paths E e fileName r = candidate_paths E' e fileName r'" for r r' E'
    unfolding assms by (simp add: candidate_paths_absolute)
  have c3: "fst (View_lookup E this fileName w) = fst (View_lookup E this' fileName w') \<and>
            fst (View_lookup E this fileName w) =
              Inr (find (is_regular_file E)
                     (candidate_paths E (this_ext this) fileName None))"
    if "concat_root (this_root this) \<noteq> [] \<and> concat_root (this_root this') \<noteq> [] \<and>
          this_ext this' = this_ext this"
    using that
    by (simp add: View_lookup_def lookup_loop_absolute[OF assms] falsy_path_def)
  show ?thesis
    using c1 c2 c3 by blast
qed

theorem absolute_file_name_ignores_roots_witness:
  "resolve ''/anywhere'' [Some ''/b'', Some ''/views/index.html''] = Inr ''/views/index.html'' \<and>
   fst (View_lookup example_env (example_view (RootString ''/b'')) ''/views/index.html''
          example_world) =
   fst (View_lookup example_env (example_view (RootArray [''/x'', ''/y'']))
          ''/views/index.html'' example_world_bound)"
proof -
  have fn: "''/views/index.html'' = CHR ''/'' # ''views/index.html''"
    by simp
  have nz: "normalizeString (''/views/index.html'' @ ''/'') False = ''views/index.html''"
    by code_simp
  have ne: "concat_root (this_root (example_view (RootString ''/b''))) \<noteq> [] \<and>
            concat_root (this_root (example_view (RootArray [''/x'', ''/y'']))) \<noteq> [] \<and>
            this_ext (example_view (RootArray [''/x'', ''/y''])) =
              this_ext (example_view (RootString ''/b''))"
    by (simp add: example_view_def concat_root_def)
  show ?thesis
    using absolute_file_name_ignores_roots[OF fn,
        where this = "example_view (RootString ''/b'')"
          and this' = "example_view (RootArray [''/x'', ''/y''])"
          and E = example_env and w = example_world and w' = example_world_bound] ne nz
    by simp
qed

text \<open>The claim as stated fails for a file name that is not normalised, where the location
  is not the file name itself, and for an empty array of roots, where nothing is probed.\<close>

theorem absolute_file_name_counterexample:
  "resolve (cwd example_env) [Some ''/b'', Some ''/views//index.html''] =
     Inr ''/views/index.html'' \<and>
   ''/views/index.html'' \<noteq> ''/views//index.html'' \<and>
   fst (View_lookup example_env (example_view (RootArray [])) ''/views/index.html''
          example_world) = Inr None \<and>
   fst (View_lookup example_env (example_view (RootString ''/b'')) ''/views/index.html''
          example_world) = Inr (Some ''/views/index.html'')"
  by code_simp

end
